theory Spec2Isabelle
  imports Main "HOL-Library.Word"
begin

unbundle bit_operations_syntax

section \<open>Wire codec\<close>

text \<open>
  JavaScript numbers that hold byte counts, ports and offsets are modelled as \<open>nat\<close>:
  they are non-negative integers, exact below \<open>2 ^ 53\<close>. Strings are \<open>char list\<close>.
  A byte on the wire is an \<open>8 word\<close>.
\<close>

type_synonym bytes = "8 word list"

subsection \<open>The ACK counter and its frame\<close>

text \<open>
  The loop of the data handler:
  \<^verbatim>\<open>while (ack > 0xFFFFFFFF) { ack -= 0xFFFFFFFF + 1; }\<close>
\<close>

function wrap_ack :: "nat \<Rightarrow> nat" where
  "wrap_ack a = (if a > 4294967295 then wrap_ack (a - (4294967295 + 1)) else a)"
  by pat_completeness auto
termination
  by (relation "measure (\<lambda>a. a)") auto

declare wrap_ack.simps [simp del]

text \<open>
  \<^verbatim>\<open>Buffer.writeUInt32BE(value, 0)\<close> on a 4-byte buffer: the four octets of the value,
  most significant first. Node raises a RangeError for a value above \<open>0xFFFFFFFF\<close>;
  that is the result \<open>None\<close>.
\<close>

definition writeUInt32BE :: "nat \<Rightarrow> bytes option" where
  "writeUInt32BE v =
     (if v > 4294967295 then None
      else Some [of_nat (v div 16777216 mod 256), of_nat (v div 65536 mod 256),
                 of_nat (v div 256 mod 256), of_nat (v mod 256)])"

text \<open>Reading a 4-byte big-endian unsigned integer (what the peer does with a frame).\<close>

definition readUInt32BE :: "bytes \<Rightarrow> nat option" where
  "readUInt32BE bs =
     (case bs of
        [b0, b1, b2, b3] \<Rightarrow> Some (unat b0 * 16777216 + unat b1 * 65536 + unat b2 * 256 + unat b3)
      | _ \<Rightarrow> None)"

subsection \<open>Decimal numbers in strings\<close>

definition digit_char :: "nat \<Rightarrow> char" where
  "digit_char d = ''0123456789'' ! d"

text \<open>Number to string, as a template literal renders a non-negative integer.\<close>

function show_nat :: "nat \<Rightarrow> string" where
  "show_nat n = (if n < 10 then [digit_char n] else show_nat (n div 10) @ [digit_char (n mod 10)])"
  by pat_completeness auto
termination
  by (relation "measure (\<lambda>n. n)") auto

declare show_nat.simps [simp del]

definition is_digit :: "char \<Rightarrow> bool" where
  "is_digit c = (48 \<le> (of_char c :: nat) \<and> (of_char c :: nat) \<le> 57)"

text \<open>The class \<^verbatim>\<open>\w\<close>: letters, digits and the underscore.\<close>

definition is_word_char :: "char \<Rightarrow> bool" where
  "is_word_char c =
     (let k = (of_char c :: nat) in
        (48 \<le> k \<and> k \<le> 57) \<or> (65 \<le> k \<and> k \<le> 90) \<or> (97 \<le> k \<and> k \<le> 122) \<or> k = 95)"

text \<open>The class \<^verbatim>\<open>.\<close>: every character but a line terminator.\<close>

definition is_dot_char :: "char \<Rightarrow> bool" where
  "is_dot_char c = ((of_char c :: nat) \<noteq> 10 \<and> (of_char c :: nat) \<noteq> 13)"

text \<open>\<^verbatim>\<open>parseInt(s, 10)\<close> on a string the pattern \<^verbatim>\<open>\d+\<close> matched.\<close>

definition parseInt :: "string \<Rightarrow> nat" where
  "parseInt ds = foldl (\<lambda>acc c. 10 * acc + ((of_char c :: nat) - 48)) 0 ds"

subsection \<open>The address in a DCC message\<close>

text \<open>
  \<^verbatim>\<open>_intToIP(n)\<close>: the bitwise operators of JavaScript work on the 32-bit two's complement
  value of the number (\<open>ToInt32\<close>), \<^verbatim>\<open>>>\<close> is the arithmetic shift, and
  \<^verbatim>\<open>octets.join('.')\<close> renders each octet in decimal.
\<close>

definition toInt32 :: "nat \<Rightarrow> 32 word" where
  "toInt32 n = of_nat n"

definition octet_string :: "32 word \<Rightarrow> string" where
  "octet_string w = show_nat (unat w)"

definition intToIP :: "nat \<Rightarrow> string" where
  "intToIP n =
     octet_string (signed_drop_bit 24 (toInt32 n) AND 255) @ ''.'' @
     octet_string (signed_drop_bit 16 (toInt32 n) AND 255) @ ''.'' @
     octet_string (signed_drop_bit 8 (toInt32 n) AND 255) @ ''.'' @
     octet_string (toInt32 n AND 255)"

text \<open>
  Modelled from the spec: the encoding of an address on the bot's side, which is no code
  of this repository. ``\<open>ip_u32\<close> is the peer IPv4 address encoded as a decimal 32-bit
  integer, big-endian octet order''.
\<close>

definition ip_to_int :: "nat \<Rightarrow> nat \<Rightarrow> nat \<Rightarrow> nat \<Rightarrow> nat" where
  "ip_to_int a b c d = a * 16777216 + b * 65536 + c * 256 + d"

definition dotted :: "nat \<Rightarrow> nat \<Rightarrow> nat \<Rightarrow> nat \<Rightarrow> string" where
  "dotted a b c d = show_nat a @ ''.'' @ show_nat b @ ''.'' @ show_nat c @ ''.'' @ show_nat d"

subsection \<open>The pattern of a DCC message\<close>

text \<open>
  \<^verbatim>\<open>/DCC (\w+) "?'?(.+?)'?"? (\d+) (\d+)(?: (\d+))?/\<close> with the backtracking order of
  JavaScript: alternatives are tried in the order the quantifiers prescribe (greedy:
  longest first; lazy: shortest first), and the first that lets the rest of the
  pattern match is taken.
\<close>

fun strip_prefix :: "string \<Rightarrow> string \<Rightarrow> string option" where
  "strip_prefix [] s = Some s"
| "strip_prefix (p # ps) [] = None"
| "strip_prefix (p # ps) (c # cs) = (if p = c then strip_prefix ps cs else None)"

text \<open>Every way to split off a non-empty run of characters of a class, shortest first.\<close>

fun lazy_plus :: "(char \<Rightarrow> bool) \<Rightarrow> string \<Rightarrow> (string \<times> string) list" where
  "lazy_plus p [] = []"
| "lazy_plus p (c # cs) =
     (if p c then ([c], cs) # map (\<lambda>(m, r). (c # m, r)) (lazy_plus p cs) else [])"

definition greedy_plus :: "(char \<Rightarrow> bool) \<Rightarrow> string \<Rightarrow> (string \<times> string) list" where
  "greedy_plus p s = rev (lazy_plus p s)"

text \<open>An optional character, greedy: with the character first, then without.\<close>

fun opt_char :: "char \<Rightarrow> string \<Rightarrow> string list" where
  "opt_char q [] = [[]]"
| "opt_char q (c # cs) = (if c = q then [cs, c # cs] else [c # cs])"

fun first_some :: "('a \<Rightarrow> 'b option) \<Rightarrow> 'a list \<Rightarrow> 'b option" where
  "first_some f [] = None"
| "first_some f (x # xs) = (case f x of Some r \<Rightarrow> Some r | None \<Rightarrow> first_some f xs)"

text \<open>The captures: command, file name, the two numbers, and the optional third.\<close>

type_synonym dcc_params = "string \<times> string \<times> string \<times> string \<times> string option"

definition match_size :: "string \<Rightarrow> string option" where
  "match_size s =
     (case strip_prefix '' '' s of
        None \<Rightarrow> None
      | Some s1 \<Rightarrow> first_some (\<lambda>(sz, r). Some sz) (greedy_plus is_digit s1))"

definition match_numbers :: "string \<Rightarrow> string \<Rightarrow> string \<Rightarrow> dcc_params option" where
  "match_numbers cmd fname s =
     (case strip_prefix '' '' s of
        None \<Rightarrow> None
      | Some s1 \<Rightarrow>
          first_some (\<lambda>(d1, s2).
            case strip_prefix '' '' s2 of
              None \<Rightarrow> None
            | Some s3 \<Rightarrow>
                first_some (\<lambda>(d2, s4). Some (cmd, fname, d1, d2, match_size s4))
                  (greedy_plus is_digit s3))
            (greedy_plus is_digit s1))"

definition match_name :: "string \<Rightarrow> string \<Rightarrow> dcc_params option" where
  "match_name cmd s =
     first_some (\<lambda>s1.
       first_some (\<lambda>s2.
         first_some (\<lambda>(fname, s3).
           first_some (\<lambda>s4.
             first_some (\<lambda>s5. match_numbers cmd fname s5) (opt_char (CHR 0x22) s4))
             (opt_char (CHR 0x27) s3))
           (lazy_plus is_dot_char s2))
         (opt_char (CHR 0x27) s1))
       (opt_char (CHR 0x22) s)"

definition match_here :: "string \<Rightarrow> dcc_params option" where
  "match_here s =
     (case strip_prefix ''DCC '' s of
        None \<Rightarrow> None
      | Some s1 \<Rightarrow>
          first_some (\<lambda>(cmd, s2).
            case strip_prefix '' '' s2 of
              None \<Rightarrow> None
            | Some s3 \<Rightarrow> match_name cmd s3)
            (greedy_plus is_word_char s1))"

text \<open>The pattern is not anchored: the leftmost position with a match wins.\<close>

fun dcc_match :: "string \<Rightarrow> dcc_params option" where
  "dcc_match [] = match_here []"
| "dcc_match (c # cs) =
     (case match_here (c # cs) of Some r \<Rightarrow> Some r | None \<Rightarrow> dcc_match cs)"

definition startsWith :: "string \<Rightarrow> string \<Rightarrow> bool" where
  "startsWith s p = (strip_prefix p s \<noteq> None)"

section \<open>The Transfer (class Request)\<close>

subsection \<open>Data\<close>

text \<open>
  \<^verbatim>\<open>pack_info\<close>: the object built from a DCC SEND. The empty object \<^verbatim>\<open>{}\<close> the constructor and
  the cleanup timer store is \<open>None\<close> of \<open>pack option\<close>.
\<close>

record pack =
  command :: string
  filename :: string
  ip :: string
  port :: nat
  filesize :: nat
  resumepos :: nat
  location :: string

text \<open>The constructor's \<^verbatim>\<open>args\<close> (after the defaults) and the IRC client's own nick.\<close>

record args =
  nick :: string
  pack_id :: string
  path :: string
  resume :: bool
  client_nick :: string

text \<open>What a \<^verbatim>\<open>dlerror\<close> carries: a message string, or an Error object of Node.\<close>

datatype dl_error = ErrMsg string | ErrObj string

text \<open>
  The events a Request emits to its listeners. A \<^verbatim>\<open>dlerror\<close> emitted with \<^verbatim>\<open>null\<close> or with
  the empty \<^verbatim>\<open>pack_info\<close> carries \<open>None\<close>.
\<close>

datatype xdcc_event =
    Connect pack
  | Progress pack nat
  | Complete pack
  | Dlerror "pack option" dl_error

text \<open>Everything a handler does to the outside, in the order it does it.\<close>

datatype action =
    Say string string
  | CtcpPrivmsg string string
  | Emit xdcc_event
  | Mkdir string
  | Unlink string
  | CreateWriteStream nat string
  | NetConnect nat string nat
  | ConnWrite nat bytes
  | StreamWrite nat bytes
  | StreamEnd nat
  | ConnDestroy nat
  | Rename string string
  | SetInterval nat
  | ClearInterval nat
  | SetTimeout100
  | Throw

text \<open>
  Every \<^verbatim>\<open>_download\<close> call opens one write stream and, once that is open, one socket. A
  connection holds what the closures of \<^verbatim>\<open>_download\<close> hold: the pack, \<^verbatim>\<open>received\<close> and \<^verbatim>\<open>ack\<close>.
  \<open>Opening\<close>: the stream is created and \<^verbatim>\<open>'open'\<close> has not fired. \<open>Live\<close>: the socket exists;
  \<open>connected\<close> says whether its connection is established, which Node reports once, and
  before any data or end. \<open>Dead\<close>: the socket is destroyed or has ended, and delivers
  nothing more. \<open>timer\<close>: the progress timer this connection has set is running.
\<close>

datatype phase = Opening | Live | Dead

record conn =
  cpack :: pack
  received :: nat
  ack :: nat
  phase :: phase
  connected :: bool
  timer :: bool
  stream_alive :: bool

record request =
  finished :: bool
  handlerBound :: bool
  subscribed :: bool
  pack_info :: "pack option"
  intervalId :: "nat option"
  conns :: "conn list"
  start_once :: bool
  cancel_once :: bool
  listeners :: bool
  grace_pending :: bool
  unlinks_pending :: nat

text \<open>The state the constructor leaves.\<close>

definition new_request :: request where
  "new_request =
     \<lparr>finished = False, handlerBound = False, subscribed = False, pack_info = None,
      intervalId = None, conns = [], start_once = True, cancel_once = True,
      listeners = True, grace_pending = False, unlinks_pending = 0\<rparr>"

text \<open>What the file system answers while a DCC SEND is handled.\<close>

datatype stat_result = NoEnt | IsFile nat | NotFile

record fs_reply =
  dir_exists :: bool
  mkdir_err :: "string option"
  part_stat :: stat_result

text \<open>
  What can happen to a Request: the events emitted on it from outside, a CTCP message
  from the IRC client, the events of a write stream and of a socket (by connection),
  its timers, and the callback of a pending \<^verbatim>\<open>fs.unlink\<close> with the error it reports.
\<close>

datatype event =
    Start
  | Cancel
  | Kill
  | CtcpMsg string string string fs_reply
  | StreamOpen nat
  | StreamError nat string
  | Connected nat
  | Data nat bytes
  | ConnEnd nat "string option"
  | ConnError nat string
  | ConnTimeout nat
  | Tick nat
  | GraceElapsed
  | UnlinkDone "string option"

subsection \<open>Handlers\<close>

definition upd_conn :: "nat \<Rightarrow> (conn \<Rightarrow> conn) \<Rightarrow> request \<Rightarrow> request" where
  "upd_conn i f s =
     (if i < length (conns s) then s\<lparr>conns := (conns s)[i := f ((conns s) ! i)]\<rparr> else s)"

definition get_conn :: "request \<Rightarrow> nat \<Rightarrow> conn option" where
  "get_conn s i = (if i < length (conns s) then Some ((conns s) ! i) else None)"

text \<open>
  \<^verbatim>\<open>_killRequest\<close>. The \<^verbatim>\<open>removeListener\<close> call names the unbound method, not the function
  that was subscribed (\<^verbatim>\<open>this._dccDownloadHandler.bind(this)\<close>), so the subscription
  stays; the handler is stopped by its \<^verbatim>\<open>finished\<close> guard.
\<close>

definition killRequest :: "request \<Rightarrow> request \<times> action list" where
  "killRequest s =
     (if finished s then (s, [])
      else
        let s1 = s\<lparr>finished := True\<rparr>;
            (s2, a2) = (case intervalId s1 of
                          Some i \<Rightarrow> (upd_conn i (\<lambda>c. c\<lparr>timer := False\<rparr>) (s1\<lparr>intervalId := None\<rparr>),
                                     [ClearInterval i])
                        | None \<Rightarrow> (s1, []));
            s3 = (if handlerBound s2 then s2\<lparr>handlerBound := False\<rparr> else s2)
        in (s3\<lparr>grace_pending := True\<rparr>, a2 @ [SetTimeout100]))"

definition handleStart :: "args \<Rightarrow> request \<Rightarrow> request \<times> action list" where
  "handleStart a s =
     ((if \<not> handlerBound s then s\<lparr>subscribed := True, handlerBound := True\<rparr> else s),
      [Say (nick a) (''XDCC SEND '' @ pack_id a)])"

definition handleCancel :: "args \<Rightarrow> request \<Rightarrow> request \<times> action list" where
  "handleCancel a s =
     (if finished s then (s, [])
      else let (s1, a1) = killRequest s in (s1, Say (nick a) ''XDCC CANCEL'' # a1))"

text \<open>\<^verbatim>\<open>_download(pack)\<close>: the part that runs at once.\<close>

definition download :: "pack \<Rightarrow> request \<Rightarrow> request \<times> action list" where
  "download p s =
     (if finished s then (s, [])
      else
        (s\<lparr>conns := conns s @
              [\<lparr>cpack = p, received = 0, ack = 0, phase = Opening, connected = False, timer = False,
                stream_alive = True\<rparr>]\<rparr>,
         [CreateWriteStream (length (conns s)) (location p @ ''.part'')]))"

text \<open>\<^verbatim>\<open>downloadDir.replace(/[\/\\]$/, '')\<close>\<close>

definition strip_trailing_sep :: "string \<Rightarrow> string" where
  "strip_trailing_sep d =
     (if d \<noteq> [] \<and> (last d = CHR ''/'' \<or> last d = CHR 0x5C) then butlast d else d)"

text \<open>
  \<^verbatim>\<open>path.join(downloadDir, filename)\<close> for a directory and a plain file name: the
  segments that are not empty, joined by the separator. The normalisation of \<^verbatim>\<open>.\<close>, \<^verbatim>\<open>..\<close>
  and repeated separators is left out.
\<close>

definition path_join :: "string \<Rightarrow> string \<Rightarrow> string" where
  "path_join d f = (if d = [] then f else d @ ''/'' @ f)"

text \<open>
  \<^verbatim>\<open>checkForPartialFile\<close>, with the callback of \<^verbatim>\<open>fs.stat\<close> run within the step. The
  callback of \<^verbatim>\<open>fs.unlink\<close> runs later, as an event of its own; \<open>unlinks_pending\<close> counts the
  calls whose callback has not run.
\<close>

definition checkForPartialFile :: "args \<Rightarrow> fs_reply \<Rightarrow> pack \<Rightarrow> request \<Rightarrow> request \<times> action list" where
  "checkForPartialFile a fs p s =
     (case part_stat fs of
        IsFile sz \<Rightarrow>
          (if resume a then
             (s\<lparr>pack_info := Some (p\<lparr>resumepos := sz\<rparr>)\<rparr>,
              [CtcpPrivmsg (nick a)
                 (''DCC RESUME '' @ filename p @ '' '' @ show_nat (port p) @ '' '' @ show_nat sz)])
           else (s\<lparr>unlinks_pending := Suc (unlinks_pending s)\<rparr>, [Unlink (location p @ ''.part'')]))
      | _ \<Rightarrow> download p s)"

text \<open>
  The callback of \<^verbatim>\<open>fs.unlink\<close>. It has no \<^verbatim>\<open>finished\<close> guard of its own, and it reads
  \<^verbatim>\<open>this.pack_info\<close> when it runs: on an error it emits \<^verbatim>\<open>dlerror\<close> with it, otherwise it calls
  \<^verbatim>\<open>_download\<close> with it. The \<^verbatim>\<open>pack_info\<close> is empty only before the first DCC SEND, when no
  unlink is pending, and after the cleanup timer of a finished Request, for which
  \<^verbatim>\<open>_download\<close> returns at once (\<open>pack_info_inv\<close> below, which every reachable Request
  satisfies).
\<close>

definition on_unlink_done :: "string option \<Rightarrow> request \<Rightarrow> request \<times> action list" where
  "on_unlink_done err s =
     (if unlinks_pending s = 0 then (s, [])
      else
        let s0 = s\<lparr>unlinks_pending := unlinks_pending s - 1\<rparr>
        in case err of
             Some m \<Rightarrow>
               (s0, [Emit (Dlerror (pack_info s0) (ErrMsg (''Failed to delete partial file: '' @ m)))])
           | None \<Rightarrow>
               (case pack_info s0 of
                  Some p \<Rightarrow> download p s0
                | None \<Rightarrow> (s0, [])))"

definition handleDccSend ::
  "args \<Rightarrow> fs_reply \<Rightarrow> string \<Rightarrow> string \<Rightarrow> nat \<Rightarrow> nat \<Rightarrow> request \<Rightarrow> request \<times> action list" where
  "handleDccSend a fs fname ipaddr prt fsize s =
     (let downloadDir = strip_trailing_sep (path a);
          p = \<lparr>command = ''SEND'', filename = fname, ip = ipaddr, port = prt, filesize = fsize,
               resumepos = 0, location = path_join downloadDir fname\<rparr>;
          s1 = s\<lparr>pack_info := Some p\<rparr>
      in if \<not> dir_exists fs then
           (case mkdir_err fs of
              Some m \<Rightarrow>
                (s1, [Mkdir downloadDir,
                      Emit (Dlerror (Some p) (ErrMsg (''Failed to create directory: '' @ m)))])
            | None \<Rightarrow>
                (let (s2, a2) = checkForPartialFile a fs p s1 in (s2, Mkdir downloadDir # a2)))
         else checkForPartialFile a fs p s1)"

text \<open>
  \<^verbatim>\<open>_handleDccAccept(filename, port, resumepos)\<close>. The third argument is
  \<^verbatim>\<open>parseInt(params[5], 10)\<close>, which is \<^verbatim>\<open>NaN\<close> when the message has no fifth field:
  \<open>None\<close>, equal to nothing. With the empty \<^verbatim>\<open>pack_info\<close> every comparison fails. The
  assignment to \<^verbatim>\<open>command\<close>, a field nothing reads, is seen by the connection opened
  here; a connection opened earlier keeps the value it was opened with.
\<close>

definition handleDccAccept :: "string \<Rightarrow> nat \<Rightarrow> nat option \<Rightarrow> request \<Rightarrow> request \<times> action list" where
  "handleDccAccept fname prt rpos s =
     (case pack_info s of
        Some p \<Rightarrow>
          (if filename p = fname \<and> port p = prt \<and> Some (resumepos p) = rpos then
             (let p1 = p\<lparr>command := ''ACCEPT''\<rparr> in download p1 (s\<lparr>pack_info := Some p1\<rparr>))
           else (s, [Emit (Dlerror (pack_info s) (ErrMsg ''DCC ACCEPT parameters mismatch''))]))
      | None \<Rightarrow> (s, [Emit (Dlerror (pack_info s) (ErrMsg ''DCC ACCEPT parameters mismatch''))]))"

text \<open>\<^verbatim>\<open>_dccDownloadHandler(sender, target, message)\<close>\<close>

definition dccDownloadHandler ::
  "args \<Rightarrow> fs_reply \<Rightarrow> string \<Rightarrow> string \<Rightarrow> string \<Rightarrow> request \<Rightarrow> request \<times> action list" where
  "dccDownloadHandler a fs sender target message s =
     (if finished s then (s, [])
      else if sender \<noteq> nick a \<or> target \<noteq> client_nick a \<or> \<not> startsWith message ''DCC '' then (s, [])
      else
        (case dcc_match message of
           None \<Rightarrow> (s, [Emit (Dlerror None (ErrMsg (''Invalid DCC message format: '' @ message)))])
         | Some (cmd, fname, p3, p4, p5) \<Rightarrow>
             (let ipaddr = intToIP (parseInt p3);
                  prt = parseInt p4;
                  fsize = (case p5 of Some d \<Rightarrow> parseInt d | None \<Rightarrow> 0)
              in if cmd = ''SEND'' then handleDccSend a fs fname ipaddr prt fsize s
                 else if cmd = ''ACCEPT'' then handleDccAccept fname prt (map_option parseInt p5) s
                 else (s, [Emit (Dlerror (pack_info s) (ErrMsg (''Unknown DCC command: '' @ cmd)))]))))"

subsection \<open>The data channel\<close>

text \<open>
  The \<^verbatim>\<open>'open'\<close> handler of the write stream: \<^verbatim>\<open>received\<close> and \<^verbatim>\<open>ack\<close> start at
  \<^verbatim>\<open>pack.resumepos\<close>, and the socket is created.
\<close>

definition on_stream_open :: "nat \<Rightarrow> request \<Rightarrow> request \<times> action list" where
  "on_stream_open i s =
     (case get_conn s i of
        Some c \<Rightarrow>
          (if phase c = Opening \<and> stream_alive c then
             (upd_conn i (\<lambda>c. c\<lparr>received := resumepos (cpack c), ack := resumepos (cpack c),
                                 phase := Live, connected := False\<rparr>) s,
              [NetConnect i (ip (cpack c)) (port (cpack c))])
           else (s, []))
      | None \<Rightarrow> (s, []))"

text \<open>The callback of \<^verbatim>\<open>net.connect\<close>: \<^verbatim>\<open>connect\<close> is emitted and the progress timer set.\<close>

definition on_connected :: "nat \<Rightarrow> request \<Rightarrow> request \<times> action list" where
  "on_connected i s =
     (case get_conn s i of
        Some c \<Rightarrow>
          (if phase c = Live \<and> \<not> connected c then
             (upd_conn i (\<lambda>c. c\<lparr>connected := True, timer := True\<rparr>) (s\<lparr>intervalId := Some i\<rparr>),
              [Emit (Connect (cpack c)), SetInterval i])
           else (s, []))
      | None \<Rightarrow> (s, []))"

text \<open>The timer's callback.\<close>

definition on_tick :: "nat \<Rightarrow> request \<Rightarrow> request \<times> action list" where
  "on_tick i s =
     (case get_conn s i of
        Some c \<Rightarrow>
          (if timer c \<and> \<not> finished s then (s, [Emit (Progress (cpack c) (received c))])
           else (s, []))
      | None \<Rightarrow> (s, []))"

text \<open>\<^verbatim>\<open>conn.on('data', ...)\<close>\<close>

definition on_data :: "nat \<Rightarrow> bytes \<Rightarrow> request \<Rightarrow> request \<times> action list" where
  "on_data i d s =
     (case get_conn s i of
        Some c \<Rightarrow>
          (if phase c \<noteq> Live \<or> \<not> connected c then (s, [])
           else if finished s then (s, [])
           else
             let received1 = received c + length d;
                 ack1 = wrap_ack (ack c + length d)
             in (upd_conn i (\<lambda>c. c\<lparr>received := received1, ack := ack1\<rparr>) s,
                 (case writeUInt32BE ack1 of
                    Some frame \<Rightarrow> [ConnWrite i frame, StreamWrite i d]
                  | None \<Rightarrow> [Throw])))
      | None \<Rightarrow> (s, []))"

text \<open>
  \<^verbatim>\<open>conn.on('end', ...)\<close>, with the callback of \<^verbatim>\<open>fs.rename\<close> run within the step; the
  event carries the error of the rename, if it has one. The socket delivers nothing
  after its end.
\<close>

definition on_end :: "nat \<Rightarrow> string option \<Rightarrow> request \<Rightarrow> request \<times> action list" where
  "on_end i rename_err s =
     (case get_conn s i of
        Some c \<Rightarrow>
          (if phase c \<noteq> Live \<or> \<not> connected c then (s, [])
           else
             let p = cpack c;
                 s0 = upd_conn i (\<lambda>c. c\<lparr>phase := Dead\<rparr>) s
             in if received c = filesize p then
                  (case rename_err of
                     Some m \<Rightarrow>
                       (let (s1, a1) = killRequest s0
                        in (s1, [StreamEnd i, Rename (location p @ ''.part'') (location p),
                                 Emit (Dlerror (Some p) (ErrMsg (''Failed to rename file: '' @ m))),
                                 ConnDestroy i] @ a1))
                   | None \<Rightarrow>
                       (let (s1, a1) = killRequest s0
                        in (s1, [StreamEnd i, Rename (location p @ ''.part'') (location p),
                                 Emit (Complete p), ConnDestroy i] @ a1)))
                else if \<not> finished s then
                  (let (s1, a1) = killRequest s0
                   in (s1, [StreamEnd i,
                            Emit (Dlerror (Some p) (ErrMsg ''Server unexpectedly closed connection'')),
                            ConnDestroy i] @ a1))
                else
                  (let (s1, a1) = killRequest s0
                   in (s1, [StreamEnd i,
                            Emit (Dlerror (Some p) (ErrMsg ''Server closed connection, download canceled'')),
                            ConnDestroy i] @ a1)))
      | None \<Rightarrow> (s, []))"

text \<open>\<^verbatim>\<open>conn.on('error', ...)\<close>: Node closes a socket after its error.\<close>

definition on_conn_error :: "nat \<Rightarrow> string \<Rightarrow> request \<Rightarrow> request \<times> action list" where
  "on_conn_error i m s =
     (case get_conn s i of
        Some c \<Rightarrow>
          (if phase c \<noteq> Live then (s, [])
           else
             let s0 = upd_conn i (\<lambda>c. c\<lparr>phase := Dead\<rparr>) s
             in if finished s then (s0, [])
                else
                  (let (s1, a1) = killRequest s0
                   in (s1, [StreamEnd i, Emit (Dlerror (Some (cpack c)) (ErrObj m)),
                            ConnDestroy i] @ a1)))
      | None \<Rightarrow> (s, []))"

text \<open>\<^verbatim>\<open>conn.setTimeout(60000, ...)\<close>\<close>

definition on_conn_timeout :: "nat \<Rightarrow> request \<Rightarrow> request \<times> action list" where
  "on_conn_timeout i s =
     (case get_conn s i of
        Some c \<Rightarrow>
          (if phase c \<noteq> Live then (s, [])
           else if finished s then (s, [])
           else
             (let (s1, a1) = killRequest (upd_conn i (\<lambda>c. c\<lparr>phase := Dead\<rparr>) s)
              in (s1, [StreamEnd i, Emit (Dlerror (Some (cpack c)) (ErrMsg ''Connection timed out'')),
                       ConnDestroy i] @ a1)))
      | None \<Rightarrow> (s, []))"

text \<open>
  \<^verbatim>\<open>stream.on('error', ...)\<close>. A stream that fails before it opens never opens; one that
  fails later leaves its socket as it is.
\<close>

definition on_stream_error :: "nat \<Rightarrow> string \<Rightarrow> request \<Rightarrow> request \<times> action list" where
  "on_stream_error i m s =
     (case get_conn s i of
        Some c \<Rightarrow>
          (if \<not> stream_alive c \<or> phase c = Dead then (s, [])
           else
             let s0 = upd_conn i (\<lambda>c. c\<lparr>stream_alive := False\<rparr>) s
             in if finished s then (s0, [])
                else
                  (let (s1, a1) = killRequest s0
                   in (s1, [StreamEnd i, Emit (Dlerror (Some (cpack c)) (ErrObj m))] @ a1)))
      | None \<Rightarrow> (s, []))"

text \<open>
  The timer of \<^verbatim>\<open>_killRequest\<close>, 100 ms later: \<^verbatim>\<open>removeAllListeners()\<close> and
  \<^verbatim>\<open>this.pack_info = {}\<close>.
\<close>

definition on_grace :: "request \<Rightarrow> request \<times> action list" where
  "on_grace s =
     (if grace_pending s then
        (s\<lparr>grace_pending := False, listeners := False, start_once := False, cancel_once := False,
           pack_info := None\<rparr>, [])
      else (s, []))"

subsection \<open>One step, and a run\<close>

text \<open>
  \<^verbatim>\<open>start\<close> and \<^verbatim>\<open>cancel\<close> have \<^verbatim>\<open>once\<close> listeners, \<^verbatim>\<open>kill\<close> a permanent one; all are gone after
  \<^verbatim>\<open>removeAllListeners()\<close>. A CTCP message reaches the handler once \<^verbatim>\<open>_handleStart\<close> has
  subscribed it.
\<close>

fun step :: "args \<Rightarrow> request \<Rightarrow> event \<Rightarrow> request \<times> action list" where
  "step a s Start =
     (if start_once s then handleStart a (s\<lparr>start_once := False\<rparr>) else (s, []))"
| "step a s Cancel =
     (if cancel_once s then handleCancel a (s\<lparr>cancel_once := False\<rparr>) else (s, []))"
| "step a s Kill = (if listeners s then killRequest s else (s, []))"
| "step a s (CtcpMsg sender target message fs) =
     (if subscribed s then dccDownloadHandler a fs sender target message s else (s, []))"
| "step a s (StreamOpen i) = on_stream_open i s"
| "step a s (StreamError i m) = on_stream_error i m s"
| "step a s (Connected i) = on_connected i s"
| "step a s (Data i d) = on_data i d s"
| "step a s (ConnEnd i rename_err) = on_end i rename_err s"
| "step a s (ConnError i m) = on_conn_error i m s"
| "step a s (ConnTimeout i) = on_conn_timeout i s"
| "step a s (Tick i) = on_tick i s"
| "step a s GraceElapsed = on_grace s"
| "step a s (UnlinkDone err) = on_unlink_done err s"

fun run :: "args \<Rightarrow> request \<Rightarrow> event list \<Rightarrow> request \<times> action list" where
  "run a s [] = (s, [])"
| "run a s (e # es) =
     (let (s1, a1) = step a s e; (s2, a2) = run a s1 es in (s2, a1 @ a2))"

text \<open>The events a list of actions emits, in order.\<close>

fun emitted :: "action list \<Rightarrow> xdcc_event list" where
  "emitted [] = []"
| "emitted (Emit e # as) = e # emitted as"
| "emitted (_ # as) = emitted as"

fun is_terminal :: "xdcc_event \<Rightarrow> bool" where
  "is_terminal (Complete p) = True"
| "is_terminal (Dlerror p e) = True"
| "is_terminal _ = False"

fun is_progress :: "xdcc_event \<Rightarrow> bool" where
  "is_progress (Progress p n) = True"
| "is_progress _ = False"

text \<open>The ACK frames a list of actions writes to a connection, in order.\<close>

fun acks_written :: "nat \<Rightarrow> action list \<Rightarrow> bytes list" where
  "acks_written i [] = []"
| "acks_written i (ConnWrite j f # as) =
     (if i = j then f # acks_written i as else acks_written i as)"
| "acks_written i (_ # as) = acks_written i as"

subsection \<open>Notions the properties are stated with\<close>

text \<open>
  The byte counts after each chunk of a sequence, starting from \<open>n\<close>: what
  ``\<open>n\<close> plus the total bytes received so far'' is after every chunk.
\<close>

fun running_totals :: "nat \<Rightarrow> bytes list \<Rightarrow> nat list" where
  "running_totals n [] = []"
| "running_totals n (d # ds) = (n + length d) # running_totals (n + length d) ds"

fun is_conn_end :: "event \<Rightarrow> bool" where
  "is_conn_end (ConnEnd i e) = True"
| "is_conn_end _ = False"

text \<open>
  What every reachable Request satisfies: the cleanup timer is only pending for a
  finished Request, and a Request that is not finished and has an unlink pending has a
  \<^verbatim>\<open>pack_info\<close> that is not empty.
\<close>

definition pack_info_inv :: "request \<Rightarrow> bool" where
  "pack_info_inv s =
     ((grace_pending s \<longrightarrow> finished s)
      \<and> (pack_info s = None \<and> \<not> finished s \<longrightarrow> unlinks_pending s = 0))"

fun is_unlink_done :: "event \<Rightarrow> bool" where
  "is_unlink_done (UnlinkDone e) = True"
| "is_unlink_done _ = False"

fun is_unlink :: "action \<Rightarrow> bool" where
  "is_unlink (Unlink f) = True"
| "is_unlink _ = False"

text \<open>Concrete inputs for the examples: the configuration of the spec's scenarios.\<close>

definition ex_args :: args where
  "ex_args = \<lparr>nick = ''Bot|A'', pack_id = ''#7'', path = ''/tmp/x'', resume = True, client_nick = ''me''\<rparr>"

definition fs_fresh :: fs_reply where
  "fs_fresh = \<lparr>dir_exists = True, mkdir_err = None, part_stat = NoEnt\<rparr>"

definition fs_part :: "nat \<Rightarrow> fs_reply" where
  "fs_part k = \<lparr>dir_exists = True, mkdir_err = None, part_stat = IsFile k\<rparr>"

text \<open>
  A resumed transfer of a file above 4 GiB: the \<^verbatim>\<open>.part\<close> file holds 4294967290 bytes, six
  below \<open>2 ^ 32\<close>.
\<close>

definition ex_big :: "event list" where
  "ex_big = [Start,
     CtcpMsg ''Bot|A'' ''me'' ''DCC SEND big.bin 2130706433 5000 5000000000'' (fs_part 4294967290),
     CtcpMsg ''Bot|A'' ''me'' ''DCC ACCEPT big.bin 2130706433 5000 4294967290'' (fs_part 4294967290)]"

definition ex_big_conn :: conn where
  "ex_big_conn =
     \<lparr>cpack = \<lparr>command = ''ACCEPT'', filename = ''big.bin'', ip = ''127.0.0.1'', port = 5000,
                filesize = 5000000000, resumepos = 4294967290, location = ''/tmp/x/big.bin''\<rparr>,
      received = 0, ack = 0, phase = Opening, connected = False, timer = False, stream_alive = True\<rparr>"

text \<open>A fresh transfer of a file of 5 bytes, up to the open write stream.\<close>

definition ex_send5 :: "event list" where
  \<open>ex_send5 = [Start, CtcpMsg ''Bot|A'' ''me'' ''DCC SEND "a.bin" 2130706433 5000 5'' fs_fresh]\<close>

definition ex_pack5 :: pack where
  "ex_pack5 = \<lparr>command = ''SEND'', filename = ''a.bin'', ip = ''127.0.0.1'', port = 5000,
                filesize = 5, resumepos = 0, location = ''/tmp/x/a.bin''\<rparr>"

definition ex_conn5 :: conn where
  "ex_conn5 = \<lparr>cpack = ex_pack5, received = 0, ack = 0, phase = Opening, connected = False, timer = False,
                stream_alive = True\<rparr>"

definition ex_state5 :: request where
  "ex_state5 =
     \<lparr>finished = False, handlerBound = True, subscribed = True, pack_info = Some ex_pack5,
      intervalId = None, conns = [ex_conn5], start_once = False, cancel_once = True,
      listeners = True, grace_pending = False, unlinks_pending = 0\<rparr>"

text \<open>The transfer of 5 bytes with its socket open, and cancelled there.\<close>

definition ex_cancelled5 :: request where
  "ex_cancelled5 =
     \<lparr>finished = True, handlerBound = False, subscribed = True, pack_info = Some ex_pack5,
      intervalId = None,
      conns = [\<lparr>cpack = ex_pack5, received = 0, ack = 0, phase = Live, connected = True, timer = False,
                stream_alive = True\<rparr>],
      start_once = False, cancel_once = False, listeners = True, grace_pending = True, unlinks_pending = 0\<rparr>"

text \<open>The same transfer with all 5 bytes received.\<close>

definition ex_full5 :: request where
  "ex_full5 =
     \<lparr>finished = False, handlerBound = True, subscribed = True, pack_info = Some ex_pack5,
      intervalId = Some 0,
      conns = [\<lparr>cpack = ex_pack5, received = 5, ack = 5, phase = Live, connected = True, timer = True,
                stream_alive = True\<rparr>],
      start_once = False, cancel_once = True, listeners = True, grace_pending = False, unlinks_pending = 0\<rparr>"

text \<open>
  A Request that does not resume: it finds a partial file of 3 bytes, calls \<^verbatim>\<open>fs.unlink\<close>,
  and is cancelled before the callback runs.
\<close>

definition ex_args_fresh :: args where
  "ex_args_fresh = \<lparr>nick = ''Bot|A'', pack_id = ''#7'', path = ''/tmp/x'', resume = False, client_nick = ''me''\<rparr>"

definition ex_unlink :: "event list" where
  "ex_unlink = [Start, CtcpMsg ''Bot|A'' ''me'' ''DCC SEND a.bin 2130706433 5000 5'' (fs_part 3), Cancel]"

definition ex_unlinking :: request where
  "ex_unlinking =
     \<lparr>finished = True, handlerBound = False, subscribed = True, pack_info = Some ex_pack5,
      intervalId = None, conns = [], start_once = False, cancel_once = False,
      listeners = True, grace_pending = True, unlinks_pending = 1\<rparr>"

text \<open>A DCC SEND without a size: the file size is 0, and the peer closes at once.\<close>

definition ex_send0 :: "event list" where
  "ex_send0 = [Start, CtcpMsg ''Bot|A'' ''me'' ''DCC SEND a.bin 2130706433 5000'' fs_fresh,
               StreamOpen 0, Connected 0, ConnEnd 0 None]"

definition ex_pack0 :: pack where
  "ex_pack0 = \<lparr>command = ''SEND'', filename = ''a.bin'', ip = ''127.0.0.1'', port = 5000,
                filesize = 0, resumepos = 0, location = ''/tmp/x/a.bin''\<rparr>"

text \<open>A resume offered at offset 3 and answered twice with another offset.\<close>

definition ex_mismatch :: "event list" where
  "ex_mismatch = [Start,
     CtcpMsg ''Bot|A'' ''me'' ''DCC SEND a.bin 2130706433 5000 5'' (fs_part 3),
     CtcpMsg ''Bot|A'' ''me'' ''DCC ACCEPT a.bin 2130706433 5000 2'' fs_fresh,
     CtcpMsg ''Bot|A'' ''me'' ''DCC ACCEPT a.bin 2130706433 5000 1'' fs_fresh]"

definition ex_pack3 :: pack where
  "ex_pack3 = \<lparr>command = ''SEND'', filename = ''a.bin'', ip = ''127.0.0.1'', port = 5000,
                filesize = 5, resumepos = 3, location = ''/tmp/x/a.bin''\<rparr>"

text \<open>The Request after \<^verbatim>\<open>start\<close>, waiting for the bot's DCC SEND.\<close>

definition ex_started :: request where
  "ex_started = new_request\<lparr>start_once := False, subscribed := True, handlerBound := True\<rparr>"

section \<open>The API front-end (server.js)\<close>

subsection \<open>Configuration and the progress logger\<close>

text \<open>
  \<^verbatim>\<open>process.env.DISABLE_PROGRESS_ANSI === 'true' || true\<close>, with the environment as a map
  from names to strings.
\<close>

definition DISABLE_PROGRESS_ANSI :: "(string \<Rightarrow> string option) \<Rightarrow> bool" where
  "DISABLE_PROGRESS_ANSI env = (env ''DISABLE_PROGRESS_ANSI'' = Some ''true'' \<or> True)"

text \<open>
  What the logger writes: an entry of the log file (level and message; the time stamp is
  left out), a line on the console, or raw text on standard output.
\<close>

datatype log_out = LogFile string string | ConsoleLog string | StdoutWrite string

text \<open>\<^verbatim>\<open>message.match(/^(\d+)%/)\<close> and \<^verbatim>\<open>parseInt(match[1], 10)\<close>\<close>

definition leading_percent :: "string \<Rightarrow> nat option" where
  "leading_percent m =
     first_some (\<lambda>(ds, r). case r of c # cs \<Rightarrow> if c = CHR ''%'' then Some (parseInt ds) else None
                                    | [] \<Rightarrow> None)
       (greedy_plus is_digit m)"

text \<open>The first half of \<^verbatim>\<open>logger.progress\<close>: the throttled entry of the log file.\<close>

definition progress_log_entry :: "string \<Rightarrow> log_out list" where
  "progress_log_entry m =
     (case leading_percent m of
        Some percent \<Rightarrow> if percent mod 10 = 0 \<or> percent = 100 then [LogFile ''PROGRESS'' m] else []
      | None \<Rightarrow> [])"

definition logger_progress :: "(string \<Rightarrow> string option) \<Rightarrow> string \<Rightarrow> log_out list" where
  "logger_progress env m =
     progress_log_entry m @
     (if DISABLE_PROGRESS_ANSI env then [ConsoleLog (''[PROGRESS] '' @ m)]
      else [StdoutWrite [CHR 0x0D, CHR 0x1B, CHR ''['', CHR ''K''], StdoutWrite (''[PROGRESS] '' @ m)])"

subsection \<open>Sockets, envelopes and the registry\<close>

text \<open>
  The objects handed to \<^verbatim>\<open>safeSocketWrite\<close>, before \<^verbatim>\<open>JSON.stringify\<close>. The \<^verbatim>\<open>progress\<close> field
  of a progress envelope is \<^verbatim>\<open>Math.floor((received / total) * 100)\<close>, a floating-point
  function of the two numbers the envelope carries; it is left out. The message of an
  error envelope is \<^verbatim>\<open>Download failed: \<close> followed by the error in JSON; the error itself
  stands for it.
\<close>

datatype envelope =
    EDownloading string string
  | EProgress string nat nat
  | ESuccess string string nat string
  | EError dl_error string

record sock =
  destroyed :: bool
  writable :: bool

text \<open>An entry of \<^verbatim>\<open>activeDownloads\<close>; \<open>socket = None\<close> is \<^verbatim>\<open>null\<close>.\<close>

record tracker =
  socket :: "nat option"
  packNumber :: string
  sendProgress :: bool

record server =
  activeDownloads :: "(string \<times> tracker) list"
  socks :: "nat \<Rightarrow> sock"

datatype srv_out =
    SockWrite nat envelope
  | SetTimeout200 string nat

definition new_server :: server where
  "new_server = \<lparr>activeDownloads = [], socks = (\<lambda>k. \<lparr>destroyed = False, writable = True\<rparr>)\<rparr>"

text \<open>
  \<^verbatim>\<open>safeSocketWrite(socket, data, callback)\<close> for a socket that is not \<^verbatim>\<open>null\<close>: the data is
  written when the socket is neither destroyed nor closed for writing. The callback
  runs in either case.
\<close>

definition safeSocketWrite :: "server \<Rightarrow> nat \<Rightarrow> envelope \<Rightarrow> srv_out list" where
  "safeSocketWrite srv k e =
     (if \<not> destroyed (socks srv k) \<and> writable (socks srv k) then [SockWrite k e] else [])"

text \<open>\<^verbatim>\<open>pack.filename + '|' + pack.port\<close>\<close>

definition downloadId :: "pack \<Rightarrow> string" where
  "downloadId p = filename p @ ''|'' @ show_nat (port p)"

definition delete_key :: "string \<Rightarrow> (string \<times> tracker) list \<Rightarrow> (string \<times> tracker) list" where
  "delete_key k m = filter (\<lambda>(k1, v). k1 \<noteq> k) m"

fun set_key :: "string \<Rightarrow> tracker \<Rightarrow> (string \<times> tracker) list \<Rightarrow> (string \<times> tracker) list" where
  "set_key k v [] = [(k, v)]"
| "set_key k v ((k1, v1) # m) = (if k1 = k then (k, v) # m else (k1, v1) # set_key k v m)"

text \<open>
  The listener \<^verbatim>\<open>xdccRequest.once("connect", ...)\<close> of one API request: it holds the
  request's socket, pack number and \<^verbatim>\<open>send_progress\<close> (\<open>None\<close> when the request has no such
  field).
\<close>

definition on_connect :: "nat \<Rightarrow> string \<Rightarrow> bool option \<Rightarrow> server \<Rightarrow> pack \<Rightarrow> server" where
  "on_connect k pack_number send_progress srv p =
     srv\<lparr>activeDownloads :=
           set_key (downloadId p)
             \<lparr>socket = Some k, packNumber = pack_number, sendProgress = (send_progress = Some True)\<rparr>
             (activeDownloads srv)\<rparr>"

text \<open>\<^verbatim>\<open>xdccHandlers.progress(pack, received)\<close>\<close>

definition progress_handler :: "server \<Rightarrow> pack \<Rightarrow> nat \<Rightarrow> server \<times> srv_out list" where
  "progress_handler srv p n =
     (case map_of (activeDownloads srv) (downloadId p) of
        Some tr \<Rightarrow>
          (case socket tr of
             Some k \<Rightarrow> (srv, safeSocketWrite srv k (EProgress (filename p) n (filesize p)))
           | None \<Rightarrow> (srv, []))
      | None \<Rightarrow> (srv, []))"

text \<open>
  \<^verbatim>\<open>xdccHandlers.complete(pack)\<close>. The callback of the write sets the 200 ms timer that
  ends the socket and deletes the entry.
\<close>

definition complete_handler :: "server \<Rightarrow> pack \<Rightarrow> server \<times> srv_out list" where
  "complete_handler srv p =
     (case map_of (activeDownloads srv) (downloadId p) of
        Some tr \<Rightarrow>
          (case socket tr of
             Some k \<Rightarrow>
               (srv, safeSocketWrite srv k
                       (ESuccess (filename p) (location p) (filesize p) (packNumber tr))
                     @ [SetTimeout200 (downloadId p) k])
           | None \<Rightarrow> (srv\<lparr>activeDownloads := delete_key (downloadId p) (activeDownloads srv)\<rparr>, []))
      | None \<Rightarrow> (srv\<lparr>activeDownloads := delete_key (downloadId p) (activeDownloads srv)\<rparr>, []))"

text \<open>
  \<^verbatim>\<open>xdccHandlers.error(pack, error)\<close>. A pack that is \<^verbatim>\<open>null\<close> or empty, an empty file name
  and the port 0 are all falsy: the key is then \<^verbatim>\<open>'unknown'\<close>.
\<close>

definition error_key :: "pack option \<Rightarrow> string" where
  "error_key po =
     (case po of
        Some p \<Rightarrow> if filename p \<noteq> [] \<and> port p \<noteq> 0 then downloadId p else ''unknown''
      | None \<Rightarrow> ''unknown'')"

definition error_handler :: "server \<Rightarrow> pack option \<Rightarrow> dl_error \<Rightarrow> server \<times> srv_out list" where
  "error_handler srv po err =
     (let key = error_key po;
          cleaned = (if key \<noteq> ''unknown''
                     then srv\<lparr>activeDownloads := delete_key key (activeDownloads srv)\<rparr> else srv)
      in case map_of (activeDownloads srv) key of
           Some tr \<Rightarrow>
             (case socket tr of
                Some k \<Rightarrow>
                  (srv, safeSocketWrite srv k (EError err (packNumber tr)) @ [SetTimeout200 key k])
              | None \<Rightarrow> (cleaned, []))
         | None \<Rightarrow> (cleaned, []))"

text \<open>The 200 ms timer: \<^verbatim>\<open>safeSocketEnd(socket)\<close> and \<^verbatim>\<open>activeDownloads.delete(downloadId)\<close>.\<close>

definition on_timeout200 :: "string \<Rightarrow> nat \<Rightarrow> server \<Rightarrow> server" where
  "on_timeout200 key k srv =
     srv\<lparr>activeDownloads := delete_key key (activeDownloads srv),
         socks := (if destroyed (socks srv k) then socks srv
                   else (socks srv)(k := (socks srv k)\<lparr>writable := False\<rparr>))\<rparr>"

text \<open>
  The \<^verbatim>\<open>'close'\<close> event of an API socket: the socket is gone, and every entry that holds it
  gets \<^verbatim>\<open>null\<close>.
\<close>

definition on_socket_close :: "nat \<Rightarrow> server \<Rightarrow> server" where
  "on_socket_close k srv =
     srv\<lparr>activeDownloads :=
           map (\<lambda>(key, tr). (key, if socket tr = Some k then tr\<lparr>socket := None\<rparr> else tr))
             (activeDownloads srv),
         socks := (socks srv)(k := \<lparr>destroyed = True, writable = False\<rparr>)\<rparr>"

subsection \<open>One API request and its Transfer\<close>

text \<open>
  The request of an API client, after \<^verbatim>\<open>JSON.parse\<close> and the check of the two required
  fields.
\<close>

record api_request =
  bot_name :: string
  pack_number :: string
  send_progress :: "bool option"

text \<open>The arguments \<^verbatim>\<open>new axdcc.Request(client, {...})\<close> gets.\<close>

definition request_args :: "string \<Rightarrow> string \<Rightarrow> api_request \<Rightarrow> args" where
  "request_args file_destination irc_nick rq =
     \<lparr>nick = bot_name rq, pack_id = ''#'' @ pack_number rq, path = file_destination,
      resume = True, client_nick = irc_nick\<rparr>"

record session =
  srv :: server
  req :: request
  connect_once :: bool

text \<open>
  The listeners the server attaches to the Request: \<^verbatim>\<open>once("connect")\<close>, and the three
  handlers for \<^verbatim>\<open>progress\<close>, \<^verbatim>\<open>complete\<close> and \<^verbatim>\<open>dlerror\<close>.
\<close>

fun dispatch :: "nat \<Rightarrow> api_request \<Rightarrow> server \<times> bool \<Rightarrow> xdcc_event \<Rightarrow> (server \<times> bool) \<times> srv_out list" where
  "dispatch k rq (sv, armed) (Connect p) =
     (if armed then ((on_connect k (pack_number rq) (send_progress rq) sv p, False), [])
      else ((sv, armed), []))"
| "dispatch k rq (sv, armed) (Progress p n) =
     (let (sv1, out) = progress_handler sv p n in ((sv1, armed), out))"
| "dispatch k rq (sv, armed) (Complete p) =
     (let (sv1, out) = complete_handler sv p in ((sv1, armed), out))"
| "dispatch k rq (sv, armed) (Dlerror po err) =
     (let (sv1, out) = error_handler sv po err in ((sv1, armed), out))"

fun deliver :: "nat \<Rightarrow> api_request \<Rightarrow> server \<times> bool \<Rightarrow> xdcc_event list \<Rightarrow> (server \<times> bool) \<times> srv_out list" where
  "deliver k rq st [] = (st, [])"
| "deliver k rq st (e # es) =
     (let (st1, o1) = dispatch k rq st e; (st2, o2) = deliver k rq st1 es in (st2, o1 @ o2))"

text \<open>
  The API request arrives on socket \<open>k\<close>: the first envelope is written, the Request is
  built, and \<^verbatim>\<open>start\<close> is emitted on it.
\<close>

definition accept_request ::
  "string \<Rightarrow> string \<Rightarrow> nat \<Rightarrow> api_request \<Rightarrow> server \<Rightarrow> session \<times> srv_out list \<times> action list" where
  "accept_request file_destination irc_nick k rq sv =
     (let (r1, acts) = step (request_args file_destination irc_nick rq) new_request Start
      in (\<lparr>srv = sv, req = r1, connect_once = True\<rparr>,
          safeSocketWrite sv k
            (EDownloading (''Started download request for pack #'' @ pack_number rq @ '' from '' @ bot_name rq)
               (pack_number rq)),
          acts))"

text \<open>
  One event of the Transfer, with the events it emits delivered to the server's
  listeners while they are attached.
\<close>

definition session_step ::
  "string \<Rightarrow> string \<Rightarrow> nat \<Rightarrow> api_request \<Rightarrow> session \<Rightarrow> event \<Rightarrow> session \<times> srv_out list" where
  "session_step file_destination irc_nick k rq st ev =
     (let (r1, acts) = step (request_args file_destination irc_nick rq) (req st) ev;
          evs = (if listeners (req st) then emitted acts else []);
          ((sv1, armed1), out) = deliver k rq (srv st, connect_once st) evs
      in (\<lparr>srv = sv1, req = r1, connect_once = armed1\<rparr>, out))"

fun session_run ::
  "string \<Rightarrow> string \<Rightarrow> nat \<Rightarrow> api_request \<Rightarrow> session \<Rightarrow> event list \<Rightarrow> session \<times> srv_out list" where
  "session_run fd me k rq st [] = (st, [])"
| "session_run fd me k rq st (e # es) =
     (let (st1, o1) = session_step fd me k rq st e; (st2, o2) = session_run fd me k rq st1 es
      in (st2, o1 @ o2))"

text \<open>
  The events a Transfer emits over a run of its session while the server's listeners are
  attached, in order: what \<open>session_step\<close> delivers.
\<close>

fun session_events ::
  "string \<Rightarrow> string \<Rightarrow> nat \<Rightarrow> api_request \<Rightarrow> session \<Rightarrow> event list \<Rightarrow> xdcc_event list" where
  "session_events fd me k rq st [] = []"
| "session_events fd me k rq st (e # es) =
     (if listeners (req st) then emitted (snd (step (request_args fd me rq) (req st) e)) else [])
     @ session_events fd me k rq (fst (session_step fd me k rq st e)) es"

text \<open>The envelopes a list of outputs writes to a socket, in order.\<close>

fun written_to :: "nat \<Rightarrow> srv_out list \<Rightarrow> envelope list" where
  "written_to k [] = []"
| "written_to k (SockWrite j e # os) = (if j = k then e # written_to k os else written_to k os)"
| "written_to k (_ # os) = written_to k os"

fun is_terminal_env :: "envelope \<Rightarrow> bool" where
  "is_terminal_env (ESuccess f p n k) = True"
| "is_terminal_env (EError e k) = True"
| "is_terminal_env _ = False"

fun is_progress_env :: "envelope \<Rightarrow> bool" where
  "is_progress_env (EProgress f n m) = True"
| "is_progress_env _ = False"

subsection \<open>Concrete inputs\<close>

text \<open>
  The API requests of the examples, on socket 1, for pack 7 of the bot: one that asks
  for progress and one that declines it.
\<close>

definition ex_rq :: "bool option \<Rightarrow> api_request" where
  "ex_rq sp = \<lparr>bot_name = ''Bot|A'', pack_number = ''7'', send_progress = sp\<rparr>"

definition ex_session :: session where
  "ex_session = \<lparr>srv = new_server, req = ex_started, connect_once = True\<rparr>"

text \<open>
  Three lives of the Transfer of that request: a download of 5 bytes that completes, one
  whose peer closes after 2 bytes, and a resume that the bot accepts at a wrong offset.
\<close>

definition ex_download5 :: "event list" where
  "ex_download5 =
     [CtcpMsg ''Bot|A'' ''me'' ''DCC SEND a.bin 2130706433 5000 5'' fs_fresh,
      StreamOpen 0, Connected 0, Data 0 [1, 2], Tick 0, Data 0 [3, 4, 5], ConnEnd 0 None]"

definition ex_broken5 :: "event list" where
  "ex_broken5 =
     [CtcpMsg ''Bot|A'' ''me'' ''DCC SEND a.bin 2130706433 5000 5'' fs_fresh,
      StreamOpen 0, Connected 0, Data 0 [1, 2], ConnEnd 0 None]"

definition ex_refused :: "event list" where
  "ex_refused =
     [CtcpMsg ''Bot|A'' ''me'' ''DCC SEND a.bin 2130706433 5000 5'' (fs_part 3),
      CtcpMsg ''Bot|A'' ''me'' ''DCC ACCEPT a.bin 2130706433 5000 2'' fs_fresh]"

definition ex_env :: "string \<Rightarrow> string option" where
  "ex_env = (\<lambda>name. if name = ''DISABLE_PROGRESS_ANSI'' then Some ''false'' else None)"

section \<open>Properties of the wire codec\<close>

lemmas codec_defs = match_here_def match_name_def match_numbers_def match_size_def greedy_plus_def
  is_digit_def is_word_char_def is_dot_char_def startsWith_def parseInt_def digit_char_def
  intToIP_def toInt32_def octet_string_def

lemmas transfer_defs = handleStart_def dccDownloadHandler_def
  handleDccSend_def handleDccAccept_def checkForPartialFile_def download_def strip_trailing_sep_def
  path_join_def on_stream_open_def get_conn_def upd_conn_def on_connected_def handleCancel_def
  killRequest_def on_end_def on_data_def on_tick_def on_conn_error_def on_conn_timeout_def
  on_stream_error_def on_grace_def on_unlink_done_def Let_def

lemmas example_defs = ex_args_def fs_fresh_def fs_part_def ex_pack5_def ex_conn5_def ex_state5_def
  ex_cancelled5_def ex_full5_def ex_send0_def ex_pack0_def ex_mismatch_def ex_pack3_def
  ex_args_fresh_def ex_unlink_def ex_unlinking_def

lemmas server_defs = new_server_def safeSocketWrite_def downloadId_def delete_key_def on_connect_def
  progress_handler_def complete_handler_def error_key_def error_handler_def request_args_def
  accept_request_def session_step_def ex_rq_def ex_session_def ex_download5_def ex_broken5_def
  ex_refused_def

lemma sdrop_and_255:
  assumes "k \<le> 24"
  shows "signed_drop_bit k (w :: 32 word) AND 255 = drop_bit k w AND 255"
proof -
  have m: "(255 :: 32 word) = mask 8" by (simp add: mask_eq_exp_minus_1)
  show ?thesis
    unfolding m using assms
    by (intro bit_word_eqI) (auto simp add: bit_simps)
qed

lemma unat_octet:
  assumes "k \<le> 24"
  shows "unat (signed_drop_bit k (of_nat n :: 32 word) AND 255) = n mod 4294967296 div 2 ^ k mod 256"
proof -
  have m: "(255 :: 32 word) = mask 8" by (simp add: mask_eq_exp_minus_1)
  have "unat (drop_bit k (of_nat n :: 32 word) AND mask 8) = unat (take_bit 8 (drop_bit k (of_nat n :: 32 word)))"
    by (simp flip: take_bit_eq_mask)
  also have "\<dots> = take_bit 8 (drop_bit k (unat (of_nat n :: 32 word)))"
    by (simp add: unsigned_take_bit_eq unat_drop_bit_eq)
  also have "\<dots> = unat (of_nat n :: 32 word) div 2 ^ k mod 2 ^ 8"
    by (simp add: take_bit_eq_mod drop_bit_eq_div)
  finally have "unat (drop_bit k (of_nat n :: 32 word) AND 255) = n mod 4294967296 div 2 ^ k mod 256"
    by (simp only: m unat_of_nat) simp
  then show ?thesis
    by (simp only: sdrop_and_255 [OF assms])
qed

lemma octets_of_ip:
  assumes "a < 256" "b < 256" "c < 256" "d < 256"
  shows "ip_to_int a b c d mod 4294967296 div 2 ^ 24 mod 256 = a"
    and "ip_to_int a b c d mod 4294967296 div 2 ^ 16 mod 256 = b"
    and "ip_to_int a b c d mod 4294967296 div 2 ^ 8 mod 256 = c"
    and "ip_to_int a b c d mod 4294967296 div 2 ^ 0 mod 256 = d"
proof -
  have lt: "ip_to_int a b c d < 4294967296"
    using assms unfolding ip_to_int_def by linarith
  have e24: "ip_to_int a b c d div 16777216 = a"
    using assms unfolding ip_to_int_def by linarith
  have e16: "ip_to_int a b c d div 65536 = a * 256 + b"
    using assms unfolding ip_to_int_def by linarith
  have e8: "ip_to_int a b c d div 256 = a * 65536 + b * 256 + c"
    using assms unfolding ip_to_int_def by linarith
  have e0: "ip_to_int a b c d = (a * 65536 + b * 256 + c) * 256 + d"
    unfolding ip_to_int_def by simp
  show "ip_to_int a b c d mod 4294967296 div 2 ^ 24 mod 256 = a"
    using lt e24 assms by simp
  have "(a * 256 + b) mod 256 = b"
    using assms by simp
  then show "ip_to_int a b c d mod 4294967296 div 2 ^ 16 mod 256 = b"
    using lt e16 by simp
  have "((a * 256 + b) * 256 + c) mod 256 = c"
    using assms by (simp only: mod_mult_self3 mod_less)
  then have "(a * 65536 + b * 256 + c) mod 256 = c"
    by (simp add: algebra_simps)
  then show "ip_to_int a b c d mod 4294967296 div 2 ^ 8 mod 256 = c"
    using lt e8 by simp
  have "((a * 65536 + b * 256 + c) * 256 + d) mod 256 = d"
    using assms by (simp only: mod_mult_self3 mod_less)
  then have "ip_to_int a b c d mod 256 = d"
    by (simp only: e0)
  then show "ip_to_int a b c d mod 4294967296 div 2 ^ 0 mod 256 = d"
    using lt by simp
qed

text \<open>
  Claim C9. For every IPv4 address \<open>a.b.c.d\<close> with each octet in \<open>0..255\<close>, decoding its
  big-endian 32-bit integer encoding with \<^verbatim>\<open>_intToIP\<close> gives back the dotted-decimal form
  \<open>a.b.c.d\<close>; the arithmetic shift on the signed 32-bit value does no harm to addresses
  whose integer form is \<open>2 ^ 31\<close> or more.
\<close>

theorem intToIP_roundtrip:
  assumes "a < 256" "b < 256" "c < 256" "d < 256"
  shows "intToIP (ip_to_int a b c d) = dotted a b c d"
proof -
  let ?n = "ip_to_int a b c d"
  have "unat (signed_drop_bit 24 (toInt32 ?n) AND 255) = a"
    using unat_octet [of 24 ?n] octets_of_ip(1) [OF assms] by (simp add: toInt32_def)
  moreover have "unat (signed_drop_bit 16 (toInt32 ?n) AND 255) = b"
    using unat_octet [of 16 ?n] octets_of_ip(2) [OF assms] by (simp add: toInt32_def)
  moreover have "unat (signed_drop_bit 8 (toInt32 ?n) AND 255) = c"
    using unat_octet [of 8 ?n] octets_of_ip(3) [OF assms] by (simp add: toInt32_def)
  moreover have "unat (toInt32 ?n AND 255) = d"
    using unat_octet [of 0 ?n] octets_of_ip(4) [OF assms] by (simp add: toInt32_def)
  ultimately show ?thesis
    by (simp add: intToIP_def dotted_def octet_string_def)
qed

lemma show_nat_numeral [simp]:
  "show_nat (numeral k) = (if (numeral k :: nat) < 10 then [digit_char (numeral k)]
      else show_nat (numeral k div 10) @ [digit_char (numeral k mod 10)])"
  by (rule show_nat.simps)

lemma show_nat_Suc_0 [simp]: "show_nat (Suc 0) = ''1''"
  by (simp add: show_nat.simps digit_char_def)

lemma show_nat_0 [simp]: "show_nat 0 = ''0''"
  by (simp add: show_nat.simps digit_char_def)

theorem intToIP_roundtrip_witness:
  "(192::nat) < 256 \<and> (168::nat) < 256 \<and> (1::nat) < 256 \<and> (10::nat) < 256 \<and>
   ip_to_int 192 168 1 10 = 3232235786 \<and> 3232235786 \<ge> (2::nat) ^ 31 \<and>
   intToIP 3232235786 = ''192.168.1.10''"
  using intToIP_roundtrip [of 192 168 1 10]
  by (simp add: ip_to_int_def dotted_def digit_char_def)


section \<open>Properties of the data channel\<close>

lemma wrap_ack_mod: "wrap_ack a = a mod 4294967296"
proof (induction a rule: wrap_ack.induct)
  case (1 a)
  show ?case
  proof (cases "a > 4294967295")
    case True
    then have "wrap_ack a = (a - 4294967296) mod 4294967296"
      using 1 by (simp add: wrap_ack.simps [of a])
    also have "\<dots> = a mod 4294967296"
      using True by (simp add: le_mod_geq)
    finally show ?thesis .
  next
    case False
    then show ?thesis by (simp add: wrap_ack.simps [of a])
  qed
qed

lemma read_write_UInt32BE:
  assumes "v < 4294967296"
  shows "\<exists>f. writeUInt32BE v = Some f \<and> readUInt32BE f = Some v"
proof -
  have b: "unat (of_nat (x mod 256) :: 8 word) = x mod 256" for x
    by (simp add: unat_of_nat)
  have top: "v div 16777216 mod 256 = v div 16777216"
    using assms by simp
  have s1: "v = v div 256 * 256 + v mod 256"
    by simp
  have "v div (256 * 256) = v div 256 div 256"
    by (rule div_mult2_eq)
  then have d2: "v div 65536 = v div 256 div 256"
    by simp
  have "v div (65536 * 256) = v div 65536 div 256"
    by (rule div_mult2_eq)
  then have d3: "v div 16777216 = v div 65536 div 256"
    by simp
  have s2: "v div 256 = v div 65536 * 256 + v div 256 mod 256"
    unfolding d2 by simp
  have s3: "v div 65536 = v div 16777216 * 256 + v div 65536 mod 256"
    unfolding d3 by simp
  have "v div 16777216 * 16777216 + v div 65536 mod 256 * 65536 + v div 256 mod 256 * 256 + v mod 256
        = ((v div 16777216 * 256 + v div 65536 mod 256) * 256 + v div 256 mod 256) * 256 + v mod 256"
    by (simp add: algebra_simps)
  also have "\<dots> = v"
    using s1 s2 s3 by simp
  finally have eq: "v div 16777216 mod 256 * 16777216 + v div 65536 mod 256 * 65536 + v div 256 mod 256 * 256 + v mod 256 = v"
    by (simp only: top)
  have w: "writeUInt32BE v = Some [of_nat (v div 16777216 mod 256), of_nat (v div 65536 mod 256),
                 of_nat (v div 256 mod 256), of_nat (v mod 256)]"
    using assms by (simp add: writeUInt32BE_def)
  have r: "readUInt32BE [of_nat (v div 16777216 mod 256), of_nat (v div 65536 mod 256),
                 of_nat (v div 256 mod 256), of_nat (v mod 256)]
        = Some (v div 16777216 mod 256 * 16777216 + v div 65536 mod 256 * 65536 + v div 256 mod 256 * 256 + v mod 256)"
    by (simp add: readUInt32BE_def b)
  show ?thesis
    using w r by (simp only: eq) blast
qed

lemma get_conn_upd_conn:
  "get_conn (upd_conn i f s) j = (if i = j then map_option f (get_conn s j) else get_conn s j)"
  by (auto simp: get_conn_def upd_conn_def)

lemma finished_upd_conn [simp]: "finished (upd_conn i f s) = finished s"
  by (simp add: upd_conn_def)

lemma on_data_live:
  assumes "get_conn s i = Some c" "phase c = Live" "\<not> finished s" "connected c"
  shows "\<exists>f. on_data i d s =
            (upd_conn i (\<lambda>c. c\<lparr>received := received c + length d,
                                ack := (ack c + length d) mod 4294967296\<rparr>) s,
             [ConnWrite i f, StreamWrite i d])
         \<and> readUInt32BE f = Some ((ack c + length d) mod 4294967296)"
proof -
  obtain f where f: "writeUInt32BE ((ack c + length d) mod 4294967296) = Some f"
    "readUInt32BE f = Some ((ack c + length d) mod 4294967296)"
    using read_write_UInt32BE [of "(ack c + length d) mod 4294967296"] by auto
  have "upd_conn i (\<lambda>c1. c1\<lparr>received := received c + length d, ack := (ack c + length d) mod 4294967296\<rparr>) s
      = upd_conn i (\<lambda>c. c\<lparr>received := received c + length d, ack := (ack c + length d) mod 4294967296\<rparr>) s"
    using assms(1) by (auto simp: upd_conn_def get_conn_def split: if_splits)
  then show ?thesis
    using assms f by (simp add: on_data_def wrap_ack_mod Let_def)
qed

lemma data_run:
  assumes "get_conn s i = Some c" "phase c = Live" "\<not> finished s"
    "ack c mod 4294967296 = received c mod 4294967296" "connected c"
  shows "map readUInt32BE (acks_written i (snd (run a s (map (Data i) ds))))
           = map (\<lambda>n. Some (n mod 4294967296)) (running_totals (received c) ds)
       \<and> (\<exists>c1. get_conn (fst (run a s (map (Data i) ds))) i = Some c1
             \<and> received c1 = received c + sum_list (map length ds)
             \<and> phase c1 = Live \<and> cpack c1 = cpack c)
       \<and> \<not> finished (fst (run a s (map (Data i) ds)))"
  using assms
proof (induction ds arbitrary: s c)
  case Nil
  then show ?case by simp
next
  case (Cons d ds)
  let ?f = "\<lambda>c. c\<lparr>received := received c + length d, ack := (ack c + length d) mod 4294967296\<rparr>"
  let ?s1 = "upd_conn i ?f s"
  obtain f where f: "on_data i d s = (?s1, [ConnWrite i f, StreamWrite i d])"
    "readUInt32BE f = Some ((ack c + length d) mod 4294967296)"
    using on_data_live [OF Cons.prems(1-3) Cons.prems(5)] by blast
  have g: "get_conn ?s1 i = Some (?f c)"
    using Cons.prems(1) by (simp add: get_conn_upd_conn)
  have m: "(ack c + length d) mod 4294967296 = (received c + length d) mod 4294967296"
    using Cons.prems(4) by (rule mod_add_cong) (rule refl)
  have IH: "map readUInt32BE (acks_written i (snd (run a ?s1 (map (Data i) ds))))
           = map (\<lambda>n. Some (n mod 4294967296)) (running_totals (received c + length d) ds)
       \<and> (\<exists>c1. get_conn (fst (run a ?s1 (map (Data i) ds))) i = Some c1
             \<and> received c1 = received c + length d + sum_list (map length ds)
             \<and> phase c1 = Live \<and> cpack c1 = cpack c)
       \<and> \<not> finished (fst (run a ?s1 (map (Data i) ds)))"
    using Cons.IH [OF g] Cons.prems(2,3,5) m by simp
  show ?case
    using IH f m by (simp add: split_beta Let_def add.assoc)
qed


lemma get_conn_intervalId [simp]: "get_conn (s\<lparr>intervalId := x\<rparr>) i = get_conn s i"
  by (simp add: get_conn_def)

lemma open_then_data:
  assumes "get_conn s i = Some c" "phase c = Opening" "stream_alive c" "\<not> finished s"
  shows "map readUInt32BE
           (acks_written i (snd (run a s (StreamOpen i # Connected i # map (Data i) ds))))
           = map (\<lambda>n. Some (n mod 4294967296)) (running_totals (resumepos (cpack c)) ds)
       \<and> (\<exists>c1. get_conn (fst (run a s (StreamOpen i # Connected i # map (Data i) ds))) i = Some c1
             \<and> received c1 = resumepos (cpack c) + sum_list (map length ds))"
proof -
  let ?f = "\<lambda>c. c\<lparr>received := resumepos (cpack c), ack := resumepos (cpack c), phase := Live,
                    connected := False\<rparr>"
  let ?g = "\<lambda>c. c\<lparr>connected := True, timer := True\<rparr>"
  let ?s1 = "upd_conn i ?f s"
  let ?s2 = "upd_conn i ?g (?s1\<lparr>intervalId := Some i\<rparr>)"
  have o: "on_stream_open i s = (?s1, [NetConnect i (ip (cpack c)) (port (cpack c))])"
    using assms by (simp add: on_stream_open_def)
  have g1: "get_conn ?s1 i = Some (?f c)"
    using assms(1) by (simp add: get_conn_upd_conn)
  have k: "on_connected i ?s1 = (?s2, [Emit (Connect (cpack c)), SetInterval i])"
    using g1 by (simp add: on_connected_def)
  have g2: "get_conn ?s2 i = Some (?g (?f c))"
    using assms(1) by (simp add: get_conn_upd_conn)
  have d: "map readUInt32BE (acks_written i (snd (run a ?s2 (map (Data i) ds))))
           = map (\<lambda>n. Some (n mod 4294967296)) (running_totals (received (?g (?f c))) ds)
       \<and> (\<exists>c1. get_conn (fst (run a ?s2 (map (Data i) ds))) i = Some c1
             \<and> received c1 = received (?g (?f c)) + sum_list (map length ds)
             \<and> phase c1 = Live \<and> cpack c1 = cpack (?g (?f c)))
       \<and> \<not> finished (fst (run a ?s2 (map (Data i) ds)))"
    by (rule data_run [OF g2]) (use assms in \<open>simp_all add: upd_conn_def\<close>)
  show ?thesis
    using d o k by (auto simp add: split_beta)
qed

text \<open>
  Claim C1. A connection of a Transfer that is not finished, whose write stream opens
  and whose socket connects, starts \<^verbatim>\<open>received\<close> and \<^verbatim>\<open>ack\<close> at the resume offset of its
  pack. For every sequence of data chunks it then receives, the frames written back to
  the peer, one per chunk and in order, are 4-byte big-endian unsigned integers
  (\<open>readUInt32BE\<close> reads only such frames) whose values are the resume offset plus the
  bytes received so far, modulo \<open>2 ^ 32\<close>: past \<open>2 ^ 32\<close> the value wraps.
\<close>

theorem ack_stream:
  assumes "get_conn s i = Some c" "phase c = Opening" "stream_alive c" "\<not> finished s"
  shows "map readUInt32BE
           (acks_written i (snd (run a s (StreamOpen i # Connected i # map (Data i) ds))))
           = map (\<lambda>n. Some (n mod 2 ^ 32)) (running_totals (resumepos (cpack c)) ds)"
  using open_then_data [OF assms, of a ds] by simp

lemma ex_big_conns: "conns (fst (run ex_args new_request ex_big)) = [ex_big_conn]"
  by (simp add: ex_big_def ex_big_conn_def new_request_def example_defs codec_defs transfer_defs)

lemma ex_big_finished: "\<not> finished (fst (run ex_args new_request ex_big))"
  by (simp add: ex_big_def new_request_def example_defs codec_defs transfer_defs)

theorem ack_stream_witness:
  "get_conn (fst (run ex_args new_request ex_big)) 0 = Some ex_big_conn \<and>
   phase ex_big_conn = Opening \<and> stream_alive ex_big_conn \<and>
   \<not> finished (fst (run ex_args new_request ex_big)) \<and>
   resumepos (cpack ex_big_conn) = 4294967290 \<and>
   map readUInt32BE
     (acks_written 0
        (snd (run ex_args (fst (run ex_args new_request ex_big))
                (StreamOpen 0 # Connected 0 # map (Data 0) [[1, 2, 3], [4, 5, 6, 7, 8, 9, 10]]))))
     = [Some 4294967293, Some 4]"
proof -
  have h1: "get_conn (fst (run ex_args new_request ex_big)) 0 = Some ex_big_conn"
    by (simp add: get_conn_def ex_big_conns)
  have h2: "phase ex_big_conn = Opening" and h3: "stream_alive ex_big_conn"
    by (simp_all add: ex_big_conn_def)
  have r: "resumepos (cpack ex_big_conn) = 4294967290"
    by (simp add: ex_big_conn_def)
  show ?thesis
    using ack_stream [OF h1 h2 h3 ex_big_finished, of ex_args "[[1, 2, 3], [4, 5, 6, 7, 8, 9, 10]]"]
      h1 h2 h3 ex_big_finished r
    by simp
qed


lemma ex_send5_run:
  "run ex_args new_request ex_send5
     = (ex_state5, [Say ''Bot|A'' ''XDCC SEND #7'', CreateWriteStream 0 ''/tmp/x/a.bin.part''])"
  by (simp add: ex_send5_def new_request_def example_defs codec_defs transfer_defs)

text \<open>
  Claim C7, as amended. The data handler adds the length of every chunk to \<^verbatim>\<open>received\<close>
  and never compares it with the file size: after any sequence of chunks, \<^verbatim>\<open>received\<close> is
  the resume offset plus the total length of the chunks. It never falls below the
  resume offset, and the file size does not bound it.
\<close>

theorem received_total:
  assumes "get_conn s i = Some c" "phase c = Opening" "stream_alive c" "\<not> finished s"
  shows "\<exists>c1. get_conn (fst (run a s (StreamOpen i # Connected i # map (Data i) ds))) i = Some c1
            \<and> received c1 = resumepos (cpack c) + sum_list (map length ds)"
  using open_then_data [OF assms, of a ds] by blast

text \<open>
  The claim as stated fails: a pack of 5 bytes whose peer sends 6 leaves \<^verbatim>\<open>received\<close> at 6.
\<close>

theorem received_exceeds_filesize:
  "fst (run ex_args new_request ex_send5) = ex_state5
   \<and> conns (fst (run ex_args ex_state5 [StreamOpen 0, Connected 0, Data 0 [1, 2, 3, 4, 5, 6]]))
     = [\<lparr>cpack = ex_pack5, received = 6, ack = 6, phase = Live, connected = True, timer = True, stream_alive = True\<rparr>]
   \<and> filesize ex_pack5 = 5"
  by (simp add: ex_send5_run) (simp add: example_defs transfer_defs wrap_ack_mod writeUInt32BE_def)

theorem received_total_witness:
  "get_conn ex_state5 0 = Some ex_conn5 \<and> phase ex_conn5 = Opening \<and> stream_alive ex_conn5
   \<and> \<not> finished ex_state5 \<and> resumepos (cpack ex_conn5) = 0
   \<and> (\<exists>c1. get_conn (fst (run ex_args ex_state5
                                (StreamOpen 0 # Connected 0 # map (Data 0) [[1, 2, 3], [4, 5, 6]]))) 0
              = Some c1 \<and> received c1 = 6)"
proof -
  have h1: "get_conn ex_state5 0 = Some ex_conn5"
    by (simp add: get_conn_def ex_state5_def)
  have h2: "phase ex_conn5 = Opening" and h3: "stream_alive ex_conn5"
    and h4: "\<not> finished ex_state5" and h5: "resumepos (cpack ex_conn5) = 0"
    by (simp_all add: example_defs)
  have e: "resumepos (cpack ex_conn5) + sum_list (map length [[1, 2, 3], [4, 5, 6 :: 8 word]]) = 6"
    by (simp add: example_defs)
  have "\<exists>c1. get_conn (fst (run ex_args ex_state5
                                (StreamOpen 0 # Connected 0 # map (Data 0) [[1, 2, 3], [4, 5, 6]]))) 0
              = Some c1 \<and> received c1 = 6"
    using received_total [OF h1 h2 h3 h4, of ex_args "[[1, 2, 3], [4, 5, 6]]"] by (simp only: e)
  then show ?thesis
    using h1 h2 h3 h4 h5 by blast
qed


section \<open>Properties of the Transfer\<close>

lemma emitted_append: "emitted (xs @ ys) = emitted xs @ emitted ys"
  by (induction xs rule: emitted.induct) simp_all

lemma killRequest_finished: "finished s \<Longrightarrow> killRequest s = (s, [])"
  by (simp add: killRequest_def)

lemma step_after_kill:
  assumes "finished s"
  shows "finished (fst (step a s ev)) \<and> filter is_progress (emitted (snd (step a s ev))) = []
         \<and> length (filter is_terminal (emitted (snd (step a s ev))))
             \<le> (if is_conn_end ev \<or> is_unlink_done ev then 1 else 0)"
proof (cases ev)
  case Start
  then show ?thesis using assms by (simp add: handleStart_def)
next
  case Cancel
  then show ?thesis using assms by (simp add: handleCancel_def)
next
  case Kill
  then show ?thesis using assms by (simp add: killRequest_finished)
next
  case (CtcpMsg sender target message fs)
  then show ?thesis using assms by (simp add: dccDownloadHandler_def)
next
  case (StreamOpen i)
  then show ?thesis using assms by (simp add: on_stream_open_def split: option.splits)
next
  case (StreamError i m)
  then show ?thesis using assms by (simp add: on_stream_error_def Let_def split: option.splits)
next
  case (Connected i)
  then show ?thesis using assms by (simp add: on_connected_def split: option.splits)
next
  case (Data i d)
  then show ?thesis using assms by (simp add: on_data_def split: option.splits)
next
  case (ConnEnd i re)
  then show ?thesis using assms
    by (simp add: on_end_def Let_def killRequest_finished split: option.splits)
next
  case (ConnError i m)
  then show ?thesis using assms by (simp add: on_conn_error_def Let_def split: option.splits)
next
  case (ConnTimeout i)
  then show ?thesis using assms by (simp add: on_conn_timeout_def split: option.splits)
next
  case (Tick i)
  then show ?thesis using assms by (simp add: on_tick_def split: option.splits)
next
  case GraceElapsed
  then show ?thesis using assms by (simp add: on_grace_def)
next
  case (UnlinkDone err)
  then show ?thesis using assms
    by (simp add: on_unlink_done_def download_def Let_def split: option.splits)
qed

lemma run_after_kill:
  assumes "finished s"
  shows "finished (fst (run a s evs)) \<and> filter is_progress (emitted (snd (run a s evs))) = []
         \<and> length (filter is_terminal (emitted (snd (run a s evs))))
             \<le> length (filter is_conn_end evs) + length (filter is_unlink_done evs)"
  using assms
proof (induction evs arbitrary: s)
  case Nil
  then show ?case by simp
next
  case (Cons e es)
  have st: "finished (fst (step a s e)) \<and> filter is_progress (emitted (snd (step a s e))) = []
         \<and> length (filter is_terminal (emitted (snd (step a s e))))
             \<le> (if is_conn_end e \<or> is_unlink_done e then 1 else 0)"
    by (rule step_after_kill [OF Cons.prems])
  then have IH: "finished (fst (run a (fst (step a s e)) es))
         \<and> filter is_progress (emitted (snd (run a (fst (step a s e)) es))) = []
         \<and> length (filter is_terminal (emitted (snd (run a (fst (step a s e)) es))))
             \<le> length (filter is_conn_end es) + length (filter is_unlink_done es)"
    using Cons.IH by blast
  show ?case
    using st IH by (auto simp add: split_beta emitted_append)
qed

lemma upd_conn_fields [simp]:
  "grace_pending (upd_conn i f s) = grace_pending s"
  "pack_info (upd_conn i f s) = pack_info s"
  "unlinks_pending (upd_conn i f s) = unlinks_pending s"
  by (simp_all add: upd_conn_def)

lemma killRequest_fields:
  "pack_info (fst (killRequest s)) = pack_info s"
  "unlinks_pending (fst (killRequest s)) = unlinks_pending s"
  "finished (fst (killRequest s))"
  "grace_pending (fst (killRequest s)) = (grace_pending s \<or> \<not> finished s)"
  by (auto simp add: killRequest_def Let_def split_beta split: option.splits)

lemma step_pack_info_inv: "pack_info_inv s \<Longrightarrow> pack_info_inv (fst (step a s ev))"
proof (cases ev)
  case (CtcpMsg sender target message fs)
  assume "pack_info_inv s"
  then show ?thesis using CtcpMsg
    by (auto simp add: pack_info_inv_def dccDownloadHandler_def handleDccSend_def handleDccAccept_def
          checkForPartialFile_def download_def Let_def split_beta
        split: option.splits stat_result.splits if_splits)
qed (auto simp add: pack_info_inv_def handleStart_def handleCancel_def killRequest_fields
       on_stream_open_def on_stream_error_def on_connected_def on_data_def on_end_def
       on_conn_error_def on_conn_timeout_def on_tick_def on_grace_def on_unlink_done_def
       download_def Let_def split_beta
     split: option.splits if_splits)

lemma run_pack_info_inv: "pack_info_inv s \<Longrightarrow> pack_info_inv (fst (run a s evs))"
  by (induction evs arbitrary: s) (simp_all add: split_beta step_pack_info_inv)

lemma reachable_pack_info_inv: "pack_info_inv (fst (run a new_request evs))"
  by (rule run_pack_info_inv) (simp add: pack_info_inv_def new_request_def)

lemma close_after_kill:
  assumes "finished s" "get_conn s i = Some c"
  shows "emitted (snd (step a s (ConnEnd i re)))
           = (if phase c = Live \<and> connected c then
                [if received c = filesize (cpack c)
                 then (case re of
                         None \<Rightarrow> Complete (cpack c)
                       | Some m \<Rightarrow> Dlerror (Some (cpack c)) (ErrMsg (''Failed to rename file: '' @ m)))
                 else Dlerror (Some (cpack c)) (ErrMsg ''Server closed connection, download canceled'')]
              else [])"
  using assms
  by (simp add: on_end_def Let_def killRequest_finished finished_upd_conn split: option.splits)

lemma close_of_nothing: "get_conn s i = None \<Longrightarrow> step a s (ConnEnd i re) = (s, [])"
  by (simp add: on_end_def)

lemma unlink_done_after_kill:
  assumes "finished s"
  shows "emitted (snd (step a s (UnlinkDone e)))
           = (case e of
                Some m \<Rightarrow>
                  if 0 < unlinks_pending s
                  then [Dlerror (pack_info s) (ErrMsg (''Failed to delete partial file: '' @ m))]
                  else []
              | None \<Rightarrow> [])"
  using assms
  by (simp add: on_unlink_done_def download_def Let_def split: option.splits)


lemma killRequest_actions:
  "Rename x y \<notin> set (snd (killRequest s))" "\<not> list_ex is_unlink (snd (killRequest s))"
  "emitted (snd (killRequest s)) = []" "finished (fst (killRequest s))"
  by (simp_all add: killRequest_def Let_def split_beta split: option.splits)

lemma download_actions: "Rename x y \<notin> set (snd (download p s))"
  by (simp add: download_def)

lemma handler_no_rename: "Rename x y \<notin> set (snd (dccDownloadHandler a fs sender target message s))"
  by (auto simp add: dccDownloadHandler_def handleDccSend_def handleDccAccept_def
        checkForPartialFile_def download_def Let_def split_beta
      split: option.splits stat_result.splits if_splits)

lemma rename_only_on_end:
  assumes "Rename x y \<in> set (snd (step a s ev))"
  shows "\<exists>i re c. ev = ConnEnd i re \<and> get_conn s i = Some c \<and> phase c = Live \<and> connected c
           \<and> received c = filesize (cpack c)
           \<and> x = location (cpack c) @ ''.part'' \<and> y = location (cpack c)"
proof (cases ev)
  case Start
  then show ?thesis using assms by (simp add: handleStart_def split: if_splits)
next
  case Cancel
  then show ?thesis using assms killRequest_actions(1) [of x y]
    by (auto simp add: handleCancel_def split_beta split: if_splits)
next
  case Kill
  then show ?thesis using assms killRequest_actions(1) [of x y] by (auto split: if_splits)
next
  case (CtcpMsg sender target message fs)
  then show ?thesis using assms handler_no_rename [of x y] by (auto split: if_splits)
next
  case (StreamOpen i)
  then show ?thesis using assms by (auto simp add: on_stream_open_def split: option.splits if_splits)
next
  case (StreamError i m)
  then show ?thesis using assms killRequest_actions(1) [of x y]
    by (auto simp add: on_stream_error_def Let_def split_beta split: option.splits if_splits)
next
  case (Connected i)
  then show ?thesis using assms by (auto simp add: on_connected_def split: option.splits if_splits)
next
  case (Data i d)
  then show ?thesis using assms
    by (auto simp add: on_data_def Let_def split: option.splits if_splits)
next
  case (ConnEnd i re)
  then show ?thesis using assms killRequest_actions(1) [of x y]
    by (auto simp add: on_end_def Let_def split_beta split: option.splits if_splits)
next
  case (ConnError i m)
  then show ?thesis using assms killRequest_actions(1) [of x y]
    by (auto simp add: on_conn_error_def Let_def split_beta split: option.splits if_splits)
next
  case (ConnTimeout i)
  then show ?thesis using assms killRequest_actions(1) [of x y]
    by (auto simp add: on_conn_timeout_def Let_def split_beta split: option.splits if_splits)
next
  case (Tick i)
  then show ?thesis using assms by (auto simp add: on_tick_def split: option.splits if_splits)
next
  case GraceElapsed
  then show ?thesis using assms by (auto simp add: on_grace_def split: if_splits)
next
  case (UnlinkDone err)
  then show ?thesis using assms
    by (auto simp add: on_unlink_done_def download_def Let_def split: option.splits if_splits)
qed

lemma rename_failure:
  assumes "get_conn s i = Some c" "phase c = Live" "connected c" "received c = filesize (cpack c)"
  shows "emitted (snd (step a s (ConnEnd i (Some m))))
           = [Dlerror (Some (cpack c)) (ErrMsg (''Failed to rename file: '' @ m))]
       \<and> finished (fst (step a s (ConnEnd i (Some m))))
       \<and> \<not> list_ex is_unlink (snd (step a s (ConnEnd i (Some m))))"
  using assms killRequest_actions(2-4) [of "upd_conn i (\<lambda>c. c\<lparr>phase := Dead\<rparr>) s"]
  by (simp add: on_end_def Let_def split_beta )

text \<open>
  Claim C3, as amended. A step of the Transfer renames a file only when it handles the
  close of a connected data connection whose \<^verbatim>\<open>received\<close> equals the file size of its pack (a
  file size of 0 included), and then it renames \<open>F.part\<close> to \<open>F\<close>. If that rename fails,
  the step emits exactly one event, the \<^verbatim>\<open>dlerror\<close> of the failed rename, kills the Transfer,
  and unlinks nothing: the \<^verbatim>\<open>.part\<close> file stays.
\<close>

theorem rename_only_when_all_received:
  "(Rename x y \<in> set (snd (step a s ev)) \<longrightarrow>
      (\<exists>i re c. ev = ConnEnd i re \<and> get_conn s i = Some c \<and> phase c = Live \<and> connected c
           \<and> received c = filesize (cpack c)
           \<and> x = location (cpack c) @ ''.part'' \<and> y = location (cpack c)))
   \<and> (get_conn s j = Some d \<and> phase d = Live \<and> connected d \<and> received d = filesize (cpack d) \<longrightarrow>
        emitted (snd (step a s (ConnEnd j (Some m))))
           = [Dlerror (Some (cpack d)) (ErrMsg (''Failed to rename file: '' @ m))]
        \<and> finished (fst (step a s (ConnEnd j (Some m))))
        \<and> \<not> list_ex is_unlink (snd (step a s (ConnEnd j (Some m)))))"
  using rename_only_on_end [of x y a s ev] rename_failure [of s j d a m] by blast

theorem rename_only_when_all_received_witness:
  "Rename ''/tmp/x/a.bin.part'' ''/tmp/x/a.bin'' \<in> set (snd (step ex_args ex_full5 (ConnEnd 0 (Some ''EXDEV''))))
   \<and> get_conn ex_full5 0
       = Some \<lparr>cpack = ex_pack5, received = 5, ack = 5, phase = Live, connected = True, timer = True, stream_alive = True\<rparr>
   \<and> filesize ex_pack5 = 5
   \<and> emitted (snd (step ex_args ex_full5 (ConnEnd 0 (Some ''EXDEV''))))
       = [Dlerror (Some ex_pack5) (ErrMsg ''Failed to rename file: EXDEV'')]
   \<and> finished (fst (step ex_args ex_full5 (ConnEnd 0 (Some ''EXDEV''))))
   \<and> \<not> list_ex is_unlink (snd (step ex_args ex_full5 (ConnEnd 0 (Some ''EXDEV''))))"
proof -
  let ?c = "\<lparr>cpack = ex_pack5, received = 5, ack = 5, phase = Live, connected = True, timer = True, stream_alive = True\<rparr>"
  have h1: "Rename ''/tmp/x/a.bin.part'' ''/tmp/x/a.bin'' \<in> set (snd (step ex_args ex_full5 (ConnEnd 0 (Some ''EXDEV''))))"
    by (simp add: example_defs transfer_defs)
  have h2: "get_conn ex_full5 0 = Some ?c"
    by (simp add: get_conn_def ex_full5_def)
  have h3: "phase ?c = Live" and h4: "received ?c = filesize (cpack ?c)" and h5: "filesize ex_pack5 = 5"
    and h6: "cpack ?c = ex_pack5" and h7: "connected ?c"
    by (simp_all add: ex_pack5_def)
  show ?thesis
    using rename_only_when_all_received [of "''/tmp/x/a.bin.part''" "''/tmp/x/a.bin''" ex_args ex_full5
        "ConnEnd 0 (Some ''EXDEV'')" 0 ?c "''EXDEV''"] h1 h2 h3 h4 h5 h6 h7
    by simp
qed


lemma ex_cancel_run:
  "run ex_args ex_state5 [StreamOpen 0, Connected 0, Cancel]
     = (ex_cancelled5,
        [NetConnect 0 ''127.0.0.1'' 5000, Emit (Connect ex_pack5), SetInterval 0,
         Say ''Bot|A'' ''XDCC CANCEL'', ClearInterval 0, SetTimeout100])"
  by (simp add: example_defs transfer_defs)

lemma ex_full_run:
  "run ex_args ex_state5 [StreamOpen 0, Connected 0, Data 0 [1, 2, 3, 4, 5]]
     = (ex_full5,
        [NetConnect 0 ''127.0.0.1'' 5000, Emit (Connect ex_pack5), SetInterval 0,
         ConnWrite 0 [0, 0, 0, 5], StreamWrite 0 [1, 2, 3, 4, 5]])"
  by (simp add: example_defs transfer_defs wrap_ack_mod writeUInt32BE_def)


lemma ex_unlink_run:
  "run ex_args_fresh new_request ex_unlink
     = (ex_unlinking,
        [Say ''Bot|A'' ''XDCC SEND #7'', Unlink ''/tmp/x/a.bin.part'', Say ''Bot|A'' ''XDCC CANCEL'',
         SetTimeout100])"
  by (simp add: new_request_def example_defs codec_defs transfer_defs)

lemma ex_cancelled5_idle: "fst (run ex_args ex_cancelled5 [Data 0 [1, 2], Tick 0]) = ex_cancelled5"
  by (simp add: example_defs transfer_defs)


text \<open>
  The claim as stated fails: a DCC SEND without a size gives the file size 0; the peer
  closes before it sends a byte, \<^verbatim>\<open>received\<close> is 0 as well, and the file is renamed.
\<close>

theorem rename_with_size_zero:
  "snd (run ex_args new_request ex_send0)
     = [Say ''Bot|A'' ''XDCC SEND #7'', CreateWriteStream 0 ''/tmp/x/a.bin.part'',
        NetConnect 0 ''127.0.0.1'' 5000, Emit (Connect ex_pack0), SetInterval 0, StreamEnd 0,
        Rename ''/tmp/x/a.bin.part'' ''/tmp/x/a.bin'', Emit (Complete ex_pack0), ConnDestroy 0,
        ClearInterval 0, SetTimeout100]
   \<and> filesize ex_pack0 = 0"
  by (simp add: new_request_def example_defs codec_defs transfer_defs)

text \<open>
  Claim C2 fails on the code: a \<^verbatim>\<open>dlerror\<close> raised while the CTCP negotiation runs is not
  followed by \<^verbatim>\<open>_killRequest\<close>. Two DCC ACCEPT messages with a wrong offset give two
  \<^verbatim>\<open>dlerror\<close> events, and the Transfer is still subscribed and not finished.
\<close>

theorem accept_mismatch_twice:
  "emitted (snd (run ex_args new_request ex_mismatch))
     = [Dlerror (Some ex_pack3) (ErrMsg ''DCC ACCEPT parameters mismatch''),
        Dlerror (Some ex_pack3) (ErrMsg ''DCC ACCEPT parameters mismatch'')]
   \<and> finished (fst (run ex_args new_request ex_mismatch)) = False
   \<and> subscribed (fst (run ex_args new_request ex_mismatch)) = True"
  by (simp add: new_request_def example_defs codec_defs transfer_defs)


subsection \<open>The negotiation of a resume\<close>

lemma send_with_part:
  assumes "subscribed s" "\<not> finished s" "resume a" "dir_exists fs" "part_stat fs = IsFile k"
    "startsWith msg ''DCC ''" "dcc_match msg = Some (''SEND'', fname, p3, p4, p5)"
  shows "step a s (CtcpMsg (nick a) (client_nick a) msg fs)
     = (s\<lparr>pack_info := Some \<lparr>command = ''SEND'', filename = fname, ip = intToIP (parseInt p3),
                               port = parseInt p4,
                               filesize = (case p5 of Some d \<Rightarrow> parseInt d | None \<Rightarrow> 0),
                               resumepos = k,
                               location = path_join (strip_trailing_sep (path a)) fname\<rparr>\<rparr>,
        [CtcpPrivmsg (nick a)
           (''DCC RESUME '' @ fname @ '' '' @ show_nat (parseInt p4) @ '' '' @ show_nat k)])"
  using assms
  by (simp add: dccDownloadHandler_def handleDccSend_def checkForPartialFile_def Let_def)

lemma accept_after_resume:
  assumes "subscribed s" "\<not> finished s" "pack_info s = Some p"
    "startsWith msg2 ''DCC ''" "dcc_match msg2 = Some (''ACCEPT'', f2, q3, q4, q5)"
  shows "step a s (CtcpMsg (nick a) (client_nick a) msg2 fs2)
     = (if f2 = filename p \<and> parseInt q4 = port p \<and> map_option parseInt q5 = Some (resumepos p)
        then (s\<lparr>pack_info := Some (p\<lparr>command := ''ACCEPT''\<rparr>),
                conns := conns s @ [\<lparr>cpack = p\<lparr>command := ''ACCEPT''\<rparr>, received = 0, ack = 0,
                                     phase = Opening, connected = False, timer = False, stream_alive = True\<rparr>]\<rparr>,
              [CreateWriteStream (length (conns s)) (location p @ ''.part'')])
        else (s, [Emit (Dlerror (Some p) (ErrMsg ''DCC ACCEPT parameters mismatch''))]))"
  using assms
  by (cases q5) (auto simp add: dccDownloadHandler_def handleDccAccept_def download_def Let_def)


lemma ex_started_run: "run ex_args new_request [Start] = (ex_started, [Say ''Bot|A'' ''XDCC SEND #7''])"
  by (simp add: ex_started_def new_request_def example_defs transfer_defs)


section \<open>Properties of the API front-end\<close>

text \<open>
  Claim C10. Whatever the environment holds for \<^verbatim>\<open>DISABLE_PROGRESS_ANSI\<close> (also
  \<^verbatim>\<open>'false'\<close>, also nothing), the flag is true, and \<^verbatim>\<open>logger.progress\<close> prints the message as
  one full console line after the throttled entry of the log file; it never takes the
  branch that writes the carriage return and the ANSI sequence to standard output.
\<close>

theorem progress_ansi_always_disabled:
  "DISABLE_PROGRESS_ANSI env
   \<and> logger_progress env m = progress_log_entry m @ [ConsoleLog (''[PROGRESS] '' @ m)]
   \<and> (\<forall>x. StdoutWrite x \<notin> set (logger_progress env m))"
  by (auto simp add: DISABLE_PROGRESS_ANSI_def logger_progress_def progress_log_entry_def
        split: option.splits)

theorem progress_ansi_always_disabled_witness:
  "ex_env ''DISABLE_PROGRESS_ANSI'' = Some ''false''
   \<and> DISABLE_PROGRESS_ANSI ex_env \<and> DISABLE_PROGRESS_ANSI (\<lambda>name. None)
   \<and> logger_progress ex_env ''40% of a.bin''
       = [LogFile ''PROGRESS'' ''40% of a.bin'', ConsoleLog ''[PROGRESS] 40% of a.bin'']
   \<and> logger_progress (\<lambda>name. None) ''45% of a.bin'' = [ConsoleLog ''[PROGRESS] 45% of a.bin'']"
proof -
  have e1: "progress_log_entry ''40% of a.bin'' = [LogFile ''PROGRESS'' ''40% of a.bin'']"
    and e2: "progress_log_entry ''45% of a.bin'' = []"
    by (simp_all add: progress_log_entry_def leading_percent_def greedy_plus_def is_digit_def
          parseInt_def)
  show ?thesis
    using progress_ansi_always_disabled [of ex_env "''40% of a.bin''"]
      progress_ansi_always_disabled [of "\<lambda>name. None" "''45% of a.bin''"]
    by (simp add: e1 e2 ex_env_def)
qed

lemma map_of_set_key: "map_of (set_key k v m) k = Some v"
  by (induction m rule: set_key.induct) simp_all

lemma ex_accept:
  "accept_request ''/tmp/x'' ''me'' 1 (ex_rq sp) new_server
     = (ex_session,
        [SockWrite 1 (EDownloading ''Started download request for pack #7 from Bot|A'' ''7'')],
        [Say ''Bot|A'' ''XDCC SEND #7''])"
  by (simp add: server_defs ex_started_def new_request_def transfer_defs)

text \<open>
  Claim C5 fails on the code: the registry entry records \<^verbatim>\<open>sendProgress\<close>, and the handler
  of \<^verbatim>\<open>progress\<close> never reads it. A client whose request says \<^verbatim>\<open>send_progress: false\<close> gets a
  progress envelope on the first tick after the data connection is established.
\<close>

theorem progress_sent_unasked:
  "send_progress (ex_rq (Some False)) = Some False
   \<and> fst (accept_request ''/tmp/x'' ''me'' 1 (ex_rq (Some False)) new_server) = ex_session
   \<and> snd (session_run ''/tmp/x'' ''me'' 1 (ex_rq (Some False)) ex_session
             [CtcpMsg ''Bot|A'' ''me'' ''DCC SEND a.bin 2130706433 5000 5'' fs_fresh,
              StreamOpen 0, Connected 0, Data 0 [1, 2], Tick 0])
       = [SockWrite 1 (EProgress ''a.bin'' 2 5)]"
proof -
  have c1: "send_progress (ex_rq (Some False)) = Some False"
    by (simp add: ex_rq_def)
  have c2: "fst (accept_request ''/tmp/x'' ''me'' 1 (ex_rq (Some False)) new_server) = ex_session"
    by (simp only: ex_accept fst_conv)
  have c3: "snd (session_run ''/tmp/x'' ''me'' 1 (ex_rq (Some False)) ex_session
             [CtcpMsg ''Bot|A'' ''me'' ''DCC SEND a.bin 2130706433 5000 5'' fs_fresh,
              StreamOpen 0, Connected 0, Data 0 [1, 2], Tick 0])
       = [SockWrite 1 (EProgress ''a.bin'' 2 5)]"
    by (simp add: server_defs ex_started_def new_request_def example_defs codec_defs
          transfer_defs wrap_ack_mod writeUInt32BE_def)
  show ?thesis
    by (intro conjI) fact+
qed

lemma written_to_append: "written_to k (xs @ ys) = written_to k xs @ written_to k ys"
  by (induction xs rule: written_to.induct) simp_all

lemma deliver_append:
  "deliver k rq x (E @ F)
     = (fst (deliver k rq (fst (deliver k rq x E)) F),
        snd (deliver k rq x E) @ snd (deliver k rq (fst (deliver k rq x E)) F))"
  by (induction E arbitrary: x) (simp_all add: split_beta)

lemma session_step_deliver:
  "session_step fd me k rq st e
     = (\<lparr>srv = fst (fst (deliver k rq (srv st, connect_once st) (session_events fd me k rq st [e]))),
         req = fst (step (request_args fd me rq) (req st) e),
         connect_once = snd (fst (deliver k rq (srv st, connect_once st) (session_events fd me k rq st [e])))\<rparr>,
        snd (deliver k rq (srv st, connect_once st) (session_events fd me k rq st [e])))"
  by (simp add: session_step_def split_beta Let_def)

lemma session_run_deliver:
  "snd (session_run fd me k rq st evs)
     = snd (deliver k rq (srv st, connect_once st) (session_events fd me k rq st evs))"
proof (induction evs arbitrary: st)
  case Nil
  show ?case by simp
next
  case (Cons e es)
  let ?E = "session_events fd me k rq st [e]"
  let ?st1 = "fst (session_step fd me k rq st e)"
  have s1: "(srv ?st1, connect_once ?st1) = fst (deliver k rq (srv st, connect_once st) ?E)"
    by (simp add: session_step_deliver del: session_events.simps)
  have e: "session_events fd me k rq st (e # es) = ?E @ session_events fd me k rq ?st1 es"
    by simp
  have "snd (session_run fd me k rq st (e # es))
          = snd (session_step fd me k rq st e) @ snd (session_run fd me k rq ?st1 es)"
    by (simp add: split_beta)
  also have "\<dots> = snd (deliver k rq (srv st, connect_once st) ?E)
                   @ snd (deliver k rq (srv ?st1, connect_once ?st1) (session_events fd me k rq ?st1 es))"
    by (simp only: Cons.IH session_step_deliver snd_conv)
  also have "\<dots> = snd (deliver k rq (srv st, connect_once st) (?E @ session_events fd me k rq ?st1 es))"
    by (simp only: s1 deliver_append snd_conv)
  finally show ?case
    by (simp only: e)
qed

lemma map_of_delete_key: "map_of (delete_key k m) k' = (if k' = k then None else map_of m k')"
  by (induction m) (auto simp add: delete_key_def)

lemma map_of_set_key_other: "k' \<noteq> k \<Longrightarrow> map_of (set_key k v m) k' = map_of m k'"
  by (induction m rule: set_key.induct) simp_all

lemma dispatch_quiet:
  "\<not> is_terminal e \<Longrightarrow> filter is_terminal_env (written_to k (snd (dispatch k rq x e))) = []"
  by (cases x; cases e)
     (auto simp add: progress_handler_def safeSocketWrite_def split_beta split: option.splits)

lemma deliver_quiet:
  "filter is_terminal E = [] \<Longrightarrow> filter is_terminal_env (written_to k (snd (deliver k rq x E))) = []"
proof (induction E arbitrary: x)
  case Nil
  show ?case by simp
next
  case (Cons e E)
  then have a: "\<not> is_terminal e" and b: "filter is_terminal E = []"
    by (auto split: if_splits)
  show ?case
    using dispatch_quiet [OF a, of k rq x] Cons.IH [OF b]
    by (simp add: split_beta written_to_append)
qed

lemma dispatch_idle:
  "\<not> is_terminal e \<Longrightarrow> (\<forall>p. e \<noteq> Connect p) \<or> \<not> armed \<Longrightarrow> fst (dispatch k rq (sv, armed) e) = (sv, armed)"
  by (cases e) (auto simp add: progress_handler_def split_beta split: option.splits)

lemma deliver_idle:
  "filter is_terminal E = [] \<Longrightarrow> (\<forall>p. Connect p \<notin> set E) \<or> \<not> armed \<Longrightarrow>
     fst (deliver k rq (sv, armed) E) = (sv, armed)"
proof (induction E)
  case Nil
  show ?case by simp
next
  case (Cons e E)
  then have a: "\<not> is_terminal e" and b: "filter is_terminal E = []"
    by (auto split: if_splits)
  have c: "(\<forall>p. e \<noteq> Connect p) \<or> \<not> armed" and d: "(\<forall>p. Connect p \<notin> set E) \<or> \<not> armed"
    using Cons.prems(2) by auto
  show ?case
    using dispatch_idle [OF a c, of k rq sv] Cons.IH [OF b d]
    by (simp add: split_beta)
qed


lemma deliver_run_through:
  assumes "filter is_terminal A = []" "filter is_terminal C = []"
    and "fst (deliver k rq x A) = y"
  shows "filter is_terminal_env (written_to k (snd (deliver k rq x (A @ t # C))))
           = filter is_terminal_env (written_to k (snd (dispatch k rq y t)))"
  using deliver_quiet [OF assms(1), of k rq x]
    deliver_quiet [OF assms(2), of k rq "fst (dispatch k rq y t)"] assms(3)
  by (simp add: deliver_append split_beta written_to_append)

lemma deliver_before_connect:
  assumes "filter is_terminal A = []" "\<forall>p. Connect p \<notin> set A" "filter is_terminal C = []"
  shows "filter is_terminal_env (written_to k (snd (deliver k rq (sv, True) (A @ t # C))))
           = filter is_terminal_env (written_to k (snd (dispatch k rq (sv, True) t)))"
proof -
  have "fst (deliver k rq (sv, True) A) = (sv, True)"
    using assms(1,2) by (simp add: deliver_idle)
  then show ?thesis
    by (rule deliver_run_through [OF assms(1) assms(3)])
qed

lemma deliver_after_connect:
  assumes "filter is_terminal A = []" "\<forall>p. Connect p \<notin> set A" "filter is_terminal B = []"
    "filter is_terminal C = []"
  shows "filter is_terminal_env (written_to k (snd (deliver k rq (sv, True) (A @ Connect p0 # B @ t # C))))
           = filter is_terminal_env
               (written_to k (snd (dispatch k rq (on_connect k (pack_number rq) (send_progress rq) sv p0, False) t)))"
proof -
  let ?sv1 = "on_connect k (pack_number rq) (send_progress rq) sv p0"
  have a: "fst (deliver k rq (sv, True) A) = (sv, True)"
    using assms(1,2) by (simp add: deliver_idle)
  have b: "fst (deliver k rq (?sv1, False) B) = (?sv1, False)"
    using assms(3) by (simp add: deliver_idle)
  have "fst (deliver k rq (sv, True) (A @ Connect p0 # B)) = (?sv1, False)"
    using a b by (simp add: deliver_append split_beta)
  moreover have "filter is_terminal (A @ Connect p0 # B) = []"
    using assms(1,3) by simp
  ultimately have "filter is_terminal_env (written_to k (snd (deliver k rq (sv, True) ((A @ Connect p0 # B) @ t # C))))
           = filter is_terminal_env (written_to k (snd (dispatch k rq (?sv1, False) t)))"
    using assms(4) by (intro deliver_run_through)
  then show ?thesis
    by simp
qed

lemma complete_written:
  "written_to k (snd (dispatch k rq (sv, armed) (Complete p)))
     = (case map_of (activeDownloads sv) (downloadId p) of
          Some tr \<Rightarrow>
            if socket tr = Some k \<and> \<not> destroyed (socks sv k) \<and> writable (socks sv k)
            then [ESuccess (filename p) (location p) (filesize p) (packNumber tr)] else []
        | None \<Rightarrow> [])"
  by (auto simp add: complete_handler_def safeSocketWrite_def split: option.splits)

lemma error_written:
  "written_to k (snd (dispatch k rq (sv, armed) (Dlerror po err)))
     = (case map_of (activeDownloads sv) (error_key po) of
          Some tr \<Rightarrow>
            if socket tr = Some k \<and> \<not> destroyed (socks sv k) \<and> writable (socks sv k)
            then [EError err (packNumber tr)] else []
        | None \<Rightarrow> [])"
  by (auto simp add: error_handler_def safeSocketWrite_def Let_def split: option.splits)

lemma on_connect_entry:
  "map_of (activeDownloads (on_connect k pn sp sv p0)) key
     = (if key = downloadId p0
        then Some \<lparr>socket = Some k, packNumber = pn, sendProgress = (sp = Some True)\<rparr>
        else map_of (activeDownloads sv) key)"
  "socks (on_connect k pn sp sv p0) = socks sv"
  by (simp_all add: on_connect_def map_of_set_key map_of_set_key_other)

text \<open>
  Claim C8, as amended. Take the whole life of one request's Transfer, served while its
  client stays attached (the socket neither destroyed nor closed for writing), while no
  other entry of the registry holds that socket and no other request changes the
  registry (a run holds the events of this Transfer only), and let the Transfer emit
  exactly one terminal event. If that event comes after the Transfer's first \<^verbatim>\<open>connect\<close>,
  where the registry entry is made under the key \<open>filename|port\<close> of the connected pack,
  and its own key is that key, then exactly one terminal envelope is written to the
  client over the whole run: the \<open>success\<close> envelope for \<^verbatim>\<open>complete\<close>, the \<open>error\<close> envelope for
  \<^verbatim>\<open>dlerror\<close>, with the pack number of the request. If the terminal event comes before the
  first \<^verbatim>\<open>connect\<close>, no terminal envelope is written at all.
\<close>

theorem terminal_envelope_after_connect:
  assumes "\<not> destroyed (socks (srv st) k)" and "writable (socks (srv st) k)"
    and "connect_once st"
    and "\<forall>key tr. map_of (activeDownloads (srv st)) key = Some tr \<longrightarrow> socket tr \<noteq> Some k"
    and "filter is_terminal A = []" and "\<forall>p. Connect p \<notin> set A"
    and "filter is_terminal B = []" and "filter is_terminal C = []"
  shows "(session_events fd me k rq st evs = A @ Connect p0 # B @ Complete p # C
            \<and> downloadId p = downloadId p0 \<longrightarrow>
            filter is_terminal_env (written_to k (snd (session_run fd me k rq st evs)))
              = [ESuccess (filename p) (location p) (filesize p) (pack_number rq)])
       \<and> (session_events fd me k rq st evs = A @ Connect p0 # B @ Dlerror po err # C
            \<and> error_key po = downloadId p0 \<longrightarrow>
            filter is_terminal_env (written_to k (snd (session_run fd me k rq st evs)))
              = [EError err (pack_number rq)])
       \<and> (session_events fd me k rq st evs = A @ t # C \<and> is_terminal t \<longrightarrow>
            filter is_terminal_env (written_to k (snd (session_run fd me k rq st evs))) = [])"
proof -
  let ?sv = "srv st"
  let ?sv1 = "on_connect k (pack_number rq) (send_progress rq) ?sv p0"
  have x0: "(srv st, connect_once st) = (?sv, True)"
    using assms(3) by simp
  have c1: "written_to k (snd (dispatch k rq (?sv1, False) (Complete p)))
              = (if downloadId p = downloadId p0
                 then [ESuccess (filename p) (location p) (filesize p) (pack_number rq)] else [])"
    using assms(1,2,4) by (simp add: complete_written on_connect_entry del: dispatch.simps split: option.splits)
  have c2: "written_to k (snd (dispatch k rq (?sv1, False) (Dlerror po err)))
              = (if error_key po = downloadId p0 then [EError err (pack_number rq)] else [])"
    using assms(1,2,4) by (simp add: error_written on_connect_entry del: dispatch.simps split: option.splits)
  have c3: "is_terminal t \<Longrightarrow> written_to k (snd (dispatch k rq (?sv, True) t)) = []"
    using assms(4) by (cases t) (simp_all add: complete_written error_written del: dispatch.simps split: option.splits)
  have g1: "session_events fd me k rq st evs = A @ Connect p0 # B @ Complete p # C
            \<and> downloadId p = downloadId p0 \<longrightarrow>
            filter is_terminal_env (written_to k (snd (session_run fd me k rq st evs)))
              = [ESuccess (filename p) (location p) (filesize p) (pack_number rq)]"
    using deliver_after_connect [OF assms(5-8), of k rq ?sv p0 "Complete p"] c1
    by (simp add: session_run_deliver x0 del: dispatch.simps)
  have g2: "session_events fd me k rq st evs = A @ Connect p0 # B @ Dlerror po err # C
            \<and> error_key po = downloadId p0 \<longrightarrow>
            filter is_terminal_env (written_to k (snd (session_run fd me k rq st evs)))
              = [EError err (pack_number rq)]"
    using deliver_after_connect [OF assms(5-8), of k rq ?sv p0 "Dlerror po err"] c2
    by (simp add: session_run_deliver x0 del: dispatch.simps)
  have g3: "session_events fd me k rq st evs = A @ t # C \<and> is_terminal t \<longrightarrow>
            filter is_terminal_env (written_to k (snd (session_run fd me k rq st evs))) = []"
    using deliver_before_connect [OF assms(5,6,8), of k rq ?sv t] c3
    by (simp add: session_run_deliver x0 del: dispatch.simps)
  show ?thesis
    by (intro conjI) fact+
qed

text \<open>
  The claim as stated fails: the client is attached, the bot accepts the resume at a
  wrong offset before any data connection, the Transfer emits its \<^verbatim>\<open>dlerror\<close>, and nothing
  is written to the client.
\<close>

theorem no_envelope_before_connect:
  "fst (accept_request ''/tmp/x'' ''me'' 1 (ex_rq (Some True)) new_server) = ex_session
   \<and> emitted (snd (run ex_args ex_started
        [CtcpMsg ''Bot|A'' ''me'' ''DCC SEND a.bin 2130706433 5000 5'' (fs_part 3),
         CtcpMsg ''Bot|A'' ''me'' ''DCC ACCEPT a.bin 2130706433 5000 2'' fs_fresh]))
       = [Dlerror (Some ex_pack3) (ErrMsg ''DCC ACCEPT parameters mismatch'')]
   \<and> snd (session_run ''/tmp/x'' ''me'' 1 (ex_rq (Some True)) ex_session
        [CtcpMsg ''Bot|A'' ''me'' ''DCC SEND a.bin 2130706433 5000 5'' (fs_part 3),
         CtcpMsg ''Bot|A'' ''me'' ''DCC ACCEPT a.bin 2130706433 5000 2'' fs_fresh])
       = []
   \<and> socks (srv (fst (session_run ''/tmp/x'' ''me'' 1 (ex_rq (Some True)) ex_session
        [CtcpMsg ''Bot|A'' ''me'' ''DCC SEND a.bin 2130706433 5000 5'' (fs_part 3),
         CtcpMsg ''Bot|A'' ''me'' ''DCC ACCEPT a.bin 2130706433 5000 2'' fs_fresh]))) 1
       = \<lparr>destroyed = False, writable = True\<rparr>"
proof -
  have c1: "fst (accept_request ''/tmp/x'' ''me'' 1 (ex_rq (Some True)) new_server) = ex_session"
    by (simp only: ex_accept fst_conv)
  have c2: "emitted (snd (run ex_args ex_started
        [CtcpMsg ''Bot|A'' ''me'' ''DCC SEND a.bin 2130706433 5000 5'' (fs_part 3),
         CtcpMsg ''Bot|A'' ''me'' ''DCC ACCEPT a.bin 2130706433 5000 2'' fs_fresh]))
       = [Dlerror (Some ex_pack3) (ErrMsg ''DCC ACCEPT parameters mismatch'')]"
    by (simp add: ex_started_def new_request_def example_defs codec_defs transfer_defs)
  have c3: "snd (session_run ''/tmp/x'' ''me'' 1 (ex_rq (Some True)) ex_session
        [CtcpMsg ''Bot|A'' ''me'' ''DCC SEND a.bin 2130706433 5000 5'' (fs_part 3),
         CtcpMsg ''Bot|A'' ''me'' ''DCC ACCEPT a.bin 2130706433 5000 2'' fs_fresh])
       = []"
    by (simp add: server_defs ex_started_def new_request_def example_defs codec_defs transfer_defs)
  have c4: "socks (srv (fst (session_run ''/tmp/x'' ''me'' 1 (ex_rq (Some True)) ex_session
        [CtcpMsg ''Bot|A'' ''me'' ''DCC SEND a.bin 2130706433 5000 5'' (fs_part 3),
         CtcpMsg ''Bot|A'' ''me'' ''DCC ACCEPT a.bin 2130706433 5000 2'' fs_fresh]))) 1
       = \<lparr>destroyed = False, writable = True\<rparr>"
    by (simp add: server_defs ex_started_def new_request_def example_defs codec_defs transfer_defs)
  show ?thesis
    by (intro conjI) fact+
qed

lemma ex_download5_events:
  "session_events ''/tmp/x'' ''me'' 1 (ex_rq (Some True)) ex_session ex_download5
     = [] @ Connect ex_pack5 # [Progress ex_pack5 2] @ Complete ex_pack5 # []"
  by (simp add: server_defs ex_started_def new_request_def example_defs codec_defs
        transfer_defs wrap_ack_mod writeUInt32BE_def)

lemma ex_broken5_events:
  "session_events ''/tmp/x'' ''me'' 1 (ex_rq (Some True)) ex_session ex_broken5
     = [] @ Connect ex_pack5 # [] @ Dlerror (Some ex_pack5) (ErrMsg ''Server unexpectedly closed connection'') # []"
  by (simp add: server_defs ex_started_def new_request_def example_defs codec_defs
        transfer_defs wrap_ack_mod writeUInt32BE_def)

lemma ex_refused_events:
  "session_events ''/tmp/x'' ''me'' 1 (ex_rq (Some True)) ex_session ex_refused
     = [] @ Dlerror (Some ex_pack3) (ErrMsg ''DCC ACCEPT parameters mismatch'') # []"
  by (simp add: server_defs ex_started_def new_request_def example_defs codec_defs transfer_defs)

theorem terminal_envelope_after_connect_witness:
  "\<not> destroyed (socks (srv ex_session) 1) \<and> writable (socks (srv ex_session) 1)
   \<and> connect_once ex_session \<and> activeDownloads (srv ex_session) = []
   \<and> session_events ''/tmp/x'' ''me'' 1 (ex_rq (Some True)) ex_session ex_download5
       = [Connect ex_pack5, Progress ex_pack5 2, Complete ex_pack5]
   \<and> filter is_terminal_env
        (written_to 1 (snd (session_run ''/tmp/x'' ''me'' 1 (ex_rq (Some True)) ex_session ex_download5)))
       = [ESuccess ''a.bin'' ''/tmp/x/a.bin'' 5 ''7'']
   \<and> session_events ''/tmp/x'' ''me'' 1 (ex_rq (Some True)) ex_session ex_broken5
       = [Connect ex_pack5, Dlerror (Some ex_pack5) (ErrMsg ''Server unexpectedly closed connection'')]
   \<and> filter is_terminal_env
        (written_to 1 (snd (session_run ''/tmp/x'' ''me'' 1 (ex_rq (Some True)) ex_session ex_broken5)))
       = [EError (ErrMsg ''Server unexpectedly closed connection'') ''7'']
   \<and> session_events ''/tmp/x'' ''me'' 1 (ex_rq (Some True)) ex_session ex_refused
       = [Dlerror (Some ex_pack3) (ErrMsg ''DCC ACCEPT parameters mismatch'')]
   \<and> filter is_terminal_env
        (written_to 1 (snd (session_run ''/tmp/x'' ''me'' 1 (ex_rq (Some True)) ex_session ex_refused)))
       = []"
proof -
  have h1: "\<not> destroyed (socks (srv ex_session) 1)" and h2: "writable (socks (srv ex_session) 1)"
    and h3: "connect_once ex_session" and h4: "activeDownloads (srv ex_session) = []"
    by (simp_all add: ex_session_def new_server_def)
  have h5: "\<forall>key tr. map_of (activeDownloads (srv ex_session)) key = Some tr \<longrightarrow> socket tr \<noteq> Some 1"
    by (simp add: h4)
  have n: "filter is_terminal [] = []" "\<forall>p. Connect p \<notin> set []"
    "filter is_terminal [Progress ex_pack5 2] = []"
    by simp_all
  have f: "filename ex_pack5 = ''a.bin''" "location ex_pack5 = ''/tmp/x/a.bin''" "filesize ex_pack5 = 5"
    "pack_number (ex_rq (Some True)) = ''7''"
    "error_key (Some ex_pack5) = downloadId ex_pack5"
    by (simp_all add: ex_pack5_def ex_rq_def error_key_def)
  note w1 = terminal_envelope_after_connect [OF h1 h2 h3 h5 n(1) n(2) n(3) n(1),
      of "''/tmp/x''" "''me''" "ex_rq (Some True)" ex_download5 ex_pack5 ex_pack5]
  note w2 = terminal_envelope_after_connect [OF h1 h2 h3 h5 n(1) n(2) n(1) n(1),
      of "''/tmp/x''" "''me''" "ex_rq (Some True)" ex_broken5 ex_pack5 ex_pack5 "Some ex_pack5"
        "ErrMsg ''Server unexpectedly closed connection''"]
  note w3 = terminal_envelope_after_connect [OF h1 h2 h3 h5 n(1) n(2) n(1) n(1),
      of "''/tmp/x''" "''me''" "ex_rq (Some True)" ex_refused ex_pack5 ex_pack5 "Some ex_pack5"
        "ErrMsg ''x''" "Dlerror (Some ex_pack3) (ErrMsg ''DCC ACCEPT parameters mismatch'')"]
  have e1: "session_events ''/tmp/x'' ''me'' 1 (ex_rq (Some True)) ex_session ex_download5
       = [Connect ex_pack5, Progress ex_pack5 2, Complete ex_pack5]"
    by (simp only: ex_download5_events) simp
  have e2: "session_events ''/tmp/x'' ''me'' 1 (ex_rq (Some True)) ex_session ex_broken5
       = [Connect ex_pack5, Dlerror (Some ex_pack5) (ErrMsg ''Server unexpectedly closed connection'')]"
    by (simp only: ex_broken5_events) simp
  have e3: "session_events ''/tmp/x'' ''me'' 1 (ex_rq (Some True)) ex_session ex_refused
       = [Dlerror (Some ex_pack3) (ErrMsg ''DCC ACCEPT parameters mismatch'')]"
    by (simp only: ex_refused_events) simp
  have a1: "filter is_terminal_env
        (written_to 1 (snd (session_run ''/tmp/x'' ''me'' 1 (ex_rq (Some True)) ex_session ex_download5)))
       = [ESuccess ''a.bin'' ''/tmp/x/a.bin'' 5 ''7'']"
    using w1 ex_download5_events by (simp add: f del: session_run.simps session_events.simps)
  have a2: "filter is_terminal_env
        (written_to 1 (snd (session_run ''/tmp/x'' ''me'' 1 (ex_rq (Some True)) ex_session ex_broken5)))
       = [EError (ErrMsg ''Server unexpectedly closed connection'') ''7'']"
    using w2 ex_broken5_events by (simp add: f del: session_run.simps session_events.simps)
  have a3: "filter is_terminal_env
        (written_to 1 (snd (session_run ''/tmp/x'' ''me'' 1 (ex_rq (Some True)) ex_session ex_refused)))
       = []"
    using w3 ex_refused_events by (simp del: session_run.simps session_events.simps)
  show ?thesis
    by (intro conjI) fact+
qed

end
